theory Spec2Isabelle
  imports Complex_Main "HOL-Library.Word" "HOL-Library.AList"
begin

unbundle bit_operations_syntax

section \<open>Machine types\<close>

text \<open>
  \<open>size_t\<close> is taken as an unsigned 64-bit integer, \<open>int\<close> and \<open>int32_t\<close> as 32-bit
  two's complement words, \<open>uint8_t\<close> as a byte. A C pointer that the code compares with
  \<open>nullptr\<close> is an \<open>option\<close>: \<open>None\<close> is the null pointer, \<open>Some x\<close> a pointer to
  the object or buffer \<open>x\<close>.
\<close>

type_synonym size_t = "64 word"
type_synonym c_int = "32 word"
type_synonym byte = "8 word"

section \<open>KVDataStore.h: index list blocks and the block cache\<close>

text \<open>
  \<open>struct PListBlock\<close>. The header types \<open>Audioneex::PListHeader\<close> and
  \<open>Audioneex::PListBlockHeader\<close> are declared in \<open>audioneex.h\<close>, so the record takes
  them as the type parameters \<open>'lh\<close> and \<open>'bh\<close>.
\<close>

record ('lh, 'bh) PListBlock =
  ListHeader :: "'lh option"
  Header :: "'bh option"
  Body :: "byte list option"
  BodySize :: size_t

text \<open>\<open>inline bool IsNull(const PListBlock& hdr)\<close>: all three pointers are null.\<close>

definition IsNull :: "('lh, 'bh) PListBlock \<Rightarrow> bool" where
  "IsNull hdr \<longleftrightarrow> ListHeader hdr = None \<and> Header hdr = None \<and> Body hdr = None"

text \<open>
  \<open>struct BlockCache\<close>. The \<open>block_map\<close> (an unordered map from \<open>int\<close> to a byte
  vector) is an association list, so that the cached blocks can be enumerated; the entry
  of a key is the first pair with that key (\<open>map_of\<close>).
\<close>

record BlockCache =
  list_id :: c_int
  accum :: size_t
  buffer :: "(c_int \<times> byte list) list"

text \<open>
  The constructor \<open>BlockCache() : list_id(0), accum(0) {}\<close>; the map member is
  default-constructed, which for an unordered map is the map without entries.
\<close>

definition BlockCache_new :: BlockCache where
  "BlockCache_new = \<lparr>list_id = 0, accum = 0, buffer = []\<rparr>"

section \<open>AudioBlock.h: fixed-capacity audio buffers\<close>

subsection \<open>Failures, buffers and \<open>memcpy\<close>\<close>

text \<open>
  What stops a call instead of returning: a failed \<open>assert\<close>, an access outside the
  buffer a pointer refers to (undefined behaviour in C++), and a division by zero.
\<close>

datatype error = AssertionFailed | OutOfBounds | DivisionByZero

text \<open>
  The samples a pointer gives access to: none through the null pointer, the whole
  allocation otherwise.
\<close>

definition buf :: "'a list option \<Rightarrow> 'a list" where
  "buf p = (case p of None \<Rightarrow> [] | Some xs \<Rightarrow> xs)"

text \<open>
  \<open>memcpy(dst + doff, src + soff, n)\<close>, counted in samples: \<open>n\<close> samples of the source
  from offset \<open>soff\<close> overwrite the destination from offset \<open>doff\<close>. Both ranges must lie
  inside their buffers. The result is the destination pointer with its new contents; the
  two buffers are different objects.
\<close>

definition memcpy ::
  "'a list option \<Rightarrow> nat \<Rightarrow> 'a list option \<Rightarrow> nat \<Rightarrow> nat \<Rightarrow> error + 'a list option" where
  "memcpy dst doff src soff n =
     (if doff + n \<le> length (buf dst) \<and> soff + n \<le> length (buf src)
      then Inr (map_option
                  (\<lambda>d. take doff d @ take n (drop soff (buf src)) @ drop (doff + n) d) dst)
      else Inl OutOfBounds)"

subsection \<open>The class\<close>

text \<open>
  The template argument \<open>T\<close>: the sample types the header names, with \<open>sizeof(T)\<close>.
  Sample values themselves are of the type parameter \<open>'a\<close>.
\<close>

datatype SampleType = S8bit | S16bit | S32bit | U8bit | U16bit | U32bit | Sfloat

fun sizeofT :: "SampleType \<Rightarrow> nat" where
  "sizeofT S8bit = 1"
| "sizeofT S16bit = 2"
| "sizeofT S32bit = 4"
| "sizeofT U8bit = 1"
| "sizeofT U16bit = 2"
| "sizeofT U32bit = 4"
| "sizeofT Sfloat = 4"

text \<open>
  The data members. The three \<open>float\<close> members are real numbers here: rounding, infinities
  and NaN are not modelled, and nothing below depends on their values beyond equality.
\<close>

record 'a AudioBlock =
  mCapacity :: size_t
  mDuration :: real
  mSize :: size_t
  mSampleRate :: real
  mChannels :: size_t
  mData :: "'a list option"
  mID :: "32 word"
  mTimestamp :: "64 word"
  mNormFactor :: real

text \<open>
  Every function that contains an \<open>assert\<close> takes the flag \<open>ndebug\<close>: with \<open>NDEBUG\<close>
  defined the assertions are compiled out, without it a false assertion aborts.
\<close>

definition Capacity :: "'a AudioBlock \<Rightarrow> size_t" where
  "Capacity b = mCapacity b"

definition Size :: "'a AudioBlock \<Rightarrow> size_t" where
  "Size b = mSize b"

definition SizeInBytes :: "SampleType \<Rightarrow> 'a AudioBlock \<Rightarrow> size_t" where
  "SizeInBytes T b = mSize b * of_nat (sizeofT T)"

definition Duration :: "'a AudioBlock \<Rightarrow> real" where
  "Duration b = mDuration b"

definition SampleRate :: "'a AudioBlock \<Rightarrow> real" where
  "SampleRate b = mSampleRate b"

definition Channels :: "'a AudioBlock \<Rightarrow> size_t" where
  "Channels b = mChannels b"

definition BytesPerSample :: "SampleType \<Rightarrow> nat" where
  "BytesPerSample T = sizeofT T"

definition AudioBlock_IsNull :: "'a AudioBlock \<Rightarrow> bool" where
  "AudioBlock_IsNull b \<longleftrightarrow> mData b = None"

definition MaxDuration :: "'a AudioBlock \<Rightarrow> real" where
  "MaxDuration b =
     (if AudioBlock_IsNull b then 0
      else real (unat (mCapacity b)) / (real (unat (mChannels b)) * mSampleRate b))"

definition ID :: "'a AudioBlock \<Rightarrow> 32 word" where
  "ID b = mID b"

definition Timestamp :: "'a AudioBlock \<Rightarrow> 64 word" where
  "Timestamp b = mTimestamp b"

definition NormFactor :: "'a AudioBlock \<Rightarrow> real" where
  "NormFactor b = mNormFactor b"

definition Data :: "'a AudioBlock \<Rightarrow> 'a list option" where
  "Data b = mData b"

definition SetID :: "32 word \<Rightarrow> 'a AudioBlock \<Rightarrow> 'a AudioBlock" where
  "SetID i b = b\<lparr>mID := i\<rparr>"

definition SetTimestamp :: "64 word \<Rightarrow> 'a AudioBlock \<Rightarrow> 'a AudioBlock" where
  "SetTimestamp tstamp b = b\<lparr>mTimestamp := tstamp\<rparr>"

text \<open>\<open>SetChannels(int nchans)\<close>: the \<open>int\<close> is converted to \<open>size_t\<close> on assignment.\<close>

definition SetChannels :: "bool \<Rightarrow> c_int \<Rightarrow> 'a AudioBlock \<Rightarrow> error + 'a AudioBlock" where
  "SetChannels ndebug nchans b =
     (if \<not> ndebug \<and> \<not> 0 < sint nchans then Inl AssertionFailed
      else Inr (b\<lparr>mChannels := scast nchans\<rparr>))"

text \<open>The quotient \<open>size / (channels * sampleRate)\<close> that \<open>Create\<close> and \<open>Resize\<close> store.\<close>

definition duration_of :: "size_t \<Rightarrow> size_t \<Rightarrow> real \<Rightarrow> real" where
  "duration_of sz nchans rate = real (unat sz) / (real (unat nchans) * rate)"

text \<open>
  \<open>ComputeNormalizationFactor\<close>: two to the power of the sample width minus one;
  the specialisation for \<open>Sfloat\<close> does nothing.
\<close>

definition ComputeNormalizationFactor :: "SampleType \<Rightarrow> 'a AudioBlock \<Rightarrow> 'a AudioBlock" where
  "ComputeNormalizationFactor T b =
     (if T = Sfloat then b else b\<lparr>mNormFactor := 2 ^ (sizeofT T * 8 - 1)\<rparr>)"

text \<open>
  \<open>Create\<close>. Allocation with \<open>new T[mCapacity]\<close> is taken to succeed; \<open>memset\<close> fills the
  buffer with zero samples.
\<close>

definition Create ::
  "bool \<Rightarrow> size_t \<Rightarrow> real \<Rightarrow> size_t \<Rightarrow> c_int \<Rightarrow> ('a::zero) AudioBlock \<Rightarrow> error + 'a AudioBlock" where
  "Create ndebug nsamples sampleRate nchans initSize b =
     (if \<not> ndebug \<and> \<not> (nsamples > 0 \<and> sampleRate > 0 \<and> nchans > 0 \<and> mData b = None)
      then Inl AssertionFailed
      else if mData b \<noteq> None then Inr b
      else if nchans = 0 then Inl DivisionByZero
      else
        let dn = nsamples mod nchans;
            nsamples' = (if dn \<noteq> 0 then nsamples - dn + nchans else nsamples);
            sz = (if sint initSize < 0 then nsamples' else scast initSize);
            sz' = (if sz > nsamples' then nsamples' else sz)
        in Inr (b\<lparr>mCapacity := nsamples',
                  mSampleRate := sampleRate,
                  mChannels := nchans,
                  mSize := sz',
                  mDuration := duration_of sz' nchans sampleRate,
                  mData := Some (replicate (unat nsamples') 0)\<rparr>))"

text \<open>The default constructor.\<close>

definition AudioBlock_new :: "SampleType \<Rightarrow> 'a AudioBlock" where
  "AudioBlock_new T =
     ComputeNormalizationFactor T
       \<lparr>mCapacity = 0, mDuration = 0, mSize = 0, mSampleRate = 0, mChannels = 0,
        mData = None, mID = 0, mTimestamp = 0, mNormFactor = 1\<rparr>"

text \<open>The constructor \<open>AudioBlock(nsamples, sampleRate, nchans, initSize)\<close>.\<close>

definition AudioBlock_create ::
  "bool \<Rightarrow> SampleType \<Rightarrow> size_t \<Rightarrow> real \<Rightarrow> size_t \<Rightarrow> c_int \<Rightarrow> error + ('a::zero) AudioBlock" where
  "AudioBlock_create ndebug T nsamples sampleRate nchans initSize =
     (case Create ndebug nsamples sampleRate nchans initSize
             \<lparr>mCapacity = 0, mDuration = 0, mSize = 0, mSampleRate = 0, mChannels = 0,
              mData = None, mID = 0, mTimestamp = 0, mNormFactor = 1\<rparr> of
        Inl e \<Rightarrow> Inl e
      | Inr b \<Rightarrow> Inr (ComputeNormalizationFactor T b))"

text \<open>
  The copy constructor: every member is copied except \<open>mID\<close>, which is 0; the buffer is a
  new one of \<open>mCapacity\<close> samples (the null pointer when the capacity is 0), filled by
  \<open>std::copy\<close> from the first \<open>mCapacity\<close> samples of the source.
\<close>

definition AudioBlock_copy :: "'a AudioBlock \<Rightarrow> error + 'a AudioBlock" where
  "AudioBlock_copy block =
     (if unat (mCapacity block) \<le> length (buf (mData block))
      then Inr \<lparr>mCapacity = mCapacity block,
                mDuration = mDuration block,
                mSize = mSize block,
                mSampleRate = mSampleRate block,
                mChannels = mChannels block,
                mData = (if mCapacity block \<noteq> 0
                         then Some (take (unat (mCapacity block)) (buf (mData block)))
                         else None),
                mID = 0,
                mTimestamp = mTimestamp block,
                mNormFactor = mNormFactor block\<rparr>
      else Inl OutOfBounds)"

text \<open>\<open>Swap\<close>: eight \<open>std::swap\<close> calls, one for each member but \<open>mID\<close>.\<close>

definition Swap :: "'a AudioBlock \<Rightarrow> 'a AudioBlock \<Rightarrow> 'a AudioBlock \<times> 'a AudioBlock" where
  "Swap b1 b2 =
     (b1\<lparr>mCapacity := mCapacity b2, mDuration := mDuration b2, mSize := mSize b2,
         mSampleRate := mSampleRate b2, mChannels := mChannels b2, mData := mData b2,
         mTimestamp := mTimestamp b2, mNormFactor := mNormFactor b2\<rparr>,
      b2\<lparr>mCapacity := mCapacity b1, mDuration := mDuration b1, mSize := mSize b1,
         mSampleRate := mSampleRate b1, mChannels := mChannels b1, mData := mData b1,
         mTimestamp := mTimestamp b1, mNormFactor := mNormFactor b1\<rparr>)"

text \<open>
  \<open>operator=\<close> takes its argument by value, so the argument is a copy made by the copy
  constructor; it is swapped with the target and then destroyed. The result is the target.
\<close>

definition assign :: "'a AudioBlock \<Rightarrow> 'a AudioBlock \<Rightarrow> error + 'a AudioBlock" where
  "assign this src =
     (case AudioBlock_copy src of
        Inl e \<Rightarrow> Inl e
      | Inr block \<Rightarrow> Inr (fst (Swap this block)))"

text \<open>\<open>operator[]\<close> returns a reference: one function reads through it, one writes.\<close>

definition sample_at :: "bool \<Rightarrow> size_t \<Rightarrow> 'a AudioBlock \<Rightarrow> error + 'a" where
  "sample_at ndebug i b =
     (if \<not> ndebug \<and> \<not> i < mSize b then Inl AssertionFailed
      else if unat i < length (buf (mData b)) then Inr (buf (mData b) ! unat i)
      else Inl OutOfBounds)"

definition set_sample_at :: "bool \<Rightarrow> size_t \<Rightarrow> 'a \<Rightarrow> 'a AudioBlock \<Rightarrow> error + 'a AudioBlock" where
  "set_sample_at ndebug i v b =
     (if \<not> ndebug \<and> \<not> i < mSize b then Inl AssertionFailed
      else if unat i < length (buf (mData b))
      then Inr (b\<lparr>mData := map_option (\<lambda>d. d[unat i := v]) (mData b)\<rparr>)
      else Inl OutOfBounds)"

text \<open>\<open>Resize\<close>: no reallocation, the new size is cut at the capacity.\<close>

definition Resize :: "bool \<Rightarrow> size_t \<Rightarrow> 'a AudioBlock \<Rightarrow> error + 'a AudioBlock" where
  "Resize ndebug newsize b =
     (if \<not> ndebug \<and> AudioBlock_IsNull b then Inl AssertionFailed
      else
        let newsize' = (if newsize > mCapacity b then mCapacity b else newsize)
        in Inr (b\<lparr>mSize := newsize',
                  mDuration := duration_of newsize' (mChannels b) (mSampleRate b)\<rparr>))"

text \<open>\<open>SetData\<close> returns the block and the number of samples written.\<close>

definition SetData ::
  "bool \<Rightarrow> 'a list option \<Rightarrow> size_t \<Rightarrow> 'a AudioBlock \<Rightarrow> error + ('a AudioBlock \<times> size_t)" where
  "SetData ndebug data nsamples b =
     (if \<not> ndebug \<and> AudioBlock_IsNull b then Inl AssertionFailed
      else
        case (if nsamples \<noteq> mSize b then Resize ndebug nsamples b else Inr b) of
          Inl e \<Rightarrow> Inl e
        | Inr b1 \<Rightarrow>
            (case memcpy (mData b1) 0 data 0 (unat (mSize b1)) of
               Inl e \<Rightarrow> Inl e
             | Inr d \<Rightarrow> Inr (b1\<lparr>mData := d\<rparr>, mSize b1)))"

text \<open>
  \<open>DoAppend\<close>. The assertion divides by \<open>mChannels\<close>, so it is only evaluated, and can
  only divide by zero, when assertions are compiled in.
\<close>

definition DoAppend :: "bool \<Rightarrow> 'a list option \<Rightarrow> size_t \<Rightarrow> 'a AudioBlock \<Rightarrow> error + 'a AudioBlock" where
  "DoAppend ndebug data nsamples b =
     (let available = mCapacity b - mSize b in
      if available > 0 then
        let copyable = (if available \<ge> nsamples then nsamples else available) in
        if \<not> ndebug \<and> mChannels b = 0 then Inl DivisionByZero
        else if \<not> ndebug \<and> copyable mod mChannels b \<noteq> 0 then Inl AssertionFailed
        else
          case memcpy (mData b) (unat (mSize b)) data 0 (unat copyable) of
            Inl e \<Rightarrow> Inl e
          | Inr d \<Rightarrow> Resize ndebug (mSize b + copyable) (b\<lparr>mData := d\<rparr>)
      else Inr b)"

text \<open>\<open>Append(const T* data, size_t nsamples)\<close>.\<close>

definition Append :: "bool \<Rightarrow> 'a list option \<Rightarrow> size_t \<Rightarrow> 'a AudioBlock \<Rightarrow> error + 'a AudioBlock" where
  "Append ndebug data nsamples b =
     (if data = None \<or> nsamples = 0 then Inr b
      else DoAppend ndebug data nsamples b)"

text \<open>\<open>Append(AudioBlock<T> &block)\<close>.\<close>

definition Append_block :: "bool \<Rightarrow> 'a AudioBlock \<Rightarrow> 'a AudioBlock \<Rightarrow> error + 'a AudioBlock" where
  "Append_block ndebug block b =
     (if \<not> ndebug \<and> \<not> (\<not> AudioBlock_IsNull b \<and> \<not> AudioBlock_IsNull block
                         \<and> Channels block = mChannels b \<and> SampleRate block = mSampleRate b)
      then Inl AssertionFailed
      else if AudioBlock_IsNull block \<or> Size block = 0 then Inr b
      else DoAppend ndebug (Data block) (Size block) b)"

text \<open>
  \<open>this->GetSubBlock(start, size, block)\<close>: the result is the destination \<open>block\<close>, a
  different object from \<open>this\<close>, which is left as it is. The three assertions at the top of
  the function are commented out in the source. Of the guard, \<open>0 <= start\<close> and
  \<open>size >= 0\<close> hold for every \<open>size_t\<close>, which leaves the two null tests and
  \<open>start < mSize\<close>. The \<open>memcpy\<close> comes before the \<open>Resize\<close> of the destination.
\<close>

definition GetSubBlock ::
  "bool \<Rightarrow> size_t \<Rightarrow> size_t \<Rightarrow> 'a AudioBlock \<Rightarrow> 'a AudioBlock \<Rightarrow> error + 'a AudioBlock" where
  "GetSubBlock ndebug start sz block this =
     (if (AudioBlock_IsNull this \<or> AudioBlock_IsNull block) \<or> \<not> start < mSize this
      then Resize ndebug 0 block
      else
        let sbsize = min sz (mSize this - start) in
        case memcpy (Data block) 0 (mData this) (unat start) (unat sbsize) of
          Inl e \<Rightarrow> Inl e
        | Inr d \<Rightarrow> Resize ndebug sbsize (block\<lparr>mData := d\<rparr>))"

subsection \<open>The class invariant and the blocks a client can obtain\<close>

text \<open>
  The invariant of the class: the size is at most the capacity, and the buffer holds
  exactly \<open>mCapacity\<close> samples (none for the null block).
\<close>

definition AudioBlock_inv :: "'a AudioBlock \<Rightarrow> bool" where
  "AudioBlock_inv b \<longleftrightarrow> mSize b \<le> mCapacity b \<and> length (buf (mData b)) = unat (mCapacity b)"

text \<open>
  The blocks a client can obtain: from the three constructors, by the public member
  functions applied to such blocks. A write through the reference that \<open>operator[]\<close>
  returns is \<open>r_set_sample\<close>, a write through the pointer that \<open>Data()\<close> returns is
  \<open>r_write_Data\<close> (no assertion on that path). The two \<open>Normalize\<close> functions divide
  \<open>float\<close> samples and are left out; what they do to a block is a \<open>Resize\<close> and
  writes through \<open>operator[]\<close> and \<open>Data()\<close>.
\<close>

inductive reachable :: "bool \<Rightarrow> ('a::zero) AudioBlock \<Rightarrow> bool" for ndebug :: bool where
  r_new: "reachable ndebug (AudioBlock_new T)"
| r_create: "AudioBlock_create ndebug T n sr nc init = Inr b \<Longrightarrow> reachable ndebug b"
| r_copy: "reachable ndebug s \<Longrightarrow> AudioBlock_copy s = Inr b \<Longrightarrow> reachable ndebug b"
| r_assign: "reachable ndebug t \<Longrightarrow> reachable ndebug s \<Longrightarrow> assign t s = Inr b \<Longrightarrow> reachable ndebug b"
| r_Create: "reachable ndebug b \<Longrightarrow> Create ndebug n sr nc init b = Inr b' \<Longrightarrow> reachable ndebug b'"
| r_SetID: "reachable ndebug b \<Longrightarrow> reachable ndebug (SetID i b)"
| r_SetTimestamp: "reachable ndebug b \<Longrightarrow> reachable ndebug (SetTimestamp ts b)"
| r_SetChannels: "reachable ndebug b \<Longrightarrow> SetChannels ndebug c b = Inr b' \<Longrightarrow> reachable ndebug b'"
| r_Resize: "reachable ndebug b \<Longrightarrow> Resize ndebug n b = Inr b' \<Longrightarrow> reachable ndebug b'"
| r_SetData: "reachable ndebug b \<Longrightarrow> SetData ndebug data n b = Inr (b', k) \<Longrightarrow> reachable ndebug b'"
| r_Append: "reachable ndebug b \<Longrightarrow> Append ndebug data n b = Inr b' \<Longrightarrow> reachable ndebug b'"
| r_Append_block: "reachable ndebug b \<Longrightarrow> reachable ndebug block \<Longrightarrow>
     Append_block ndebug block b = Inr b' \<Longrightarrow> reachable ndebug b'"
| r_GetSubBlock: "reachable ndebug this \<Longrightarrow> reachable ndebug block \<Longrightarrow>
     GetSubBlock ndebug start sz block this = Inr b' \<Longrightarrow> reachable ndebug b'"
| r_set_sample: "reachable ndebug b \<Longrightarrow> set_sample_at ndebug i v b = Inr b' \<Longrightarrow> reachable ndebug b'"
| r_write_Data: "reachable ndebug b \<Longrightarrow> set_sample_at True i v b = Inr b' \<Longrightarrow> reachable ndebug b'"

section \<open>TCDataStore.h: the posting-list index\<close>

text \<open>
  \<open>TCDataStore.h\<close> declares the class \<open>TCIndex\<close> and its member functions; the bodies of
  the member functions, the header types of \<open>audioneex.h\<close> and the key-value database
  behind \<open>TCCollection\<close> are not among the source files. The definitions of this section
  follow the specification of the posting-list index, with the names and the parameters of
  the declarations.
\<close>

subsection \<open>Headers and the block codec\<close>

type_synonym u32 = "32 word"

text \<open>
  Modelled from the spec: the error taxonomy of the index (the bodies that raise these
  errors are missing): a decode-time size or shape mismatch, an absent header or block, a
  read or write that the collection rejects, and a violated invariant such as a chunk
  larger than a block.
\<close>

datatype index_error = CorruptBlock | NotFound | IOFailure | InvariantViolation

text \<open>
  Modelled from the spec: \<open>Audioneex::PListHeader\<close>, declared in the missing
  \<open>audioneex.h\<close>: one per list, holding the number of blocks and the total record count.
  The counters are taken as unsigned 32-bit integers.
\<close>

record PListHeader =
  blockCount :: u32
  recordCount :: u32

text \<open>
  Modelled from the spec: \<open>Audioneex::PListBlockHeader\<close>, declared in the missing
  \<open>audioneex.h\<close>: one per block, holding the block id, the size of the body in bytes, the
  record count of the block and the flag that tells the first block of a list from the
  later ones.
\<close>

record PListBlockHeader =
  block_id :: u32
  body_size :: u32
  record_count :: u32
  first_block :: bool

text \<open>
  Modelled from the spec: the byte layout of a counter, which the spec leaves open: four
  bytes, least significant first.
\<close>

definition enc32 :: "u32 \<Rightarrow> byte list" where
  "enc32 w = [ucast w, ucast (drop_bit 8 w), ucast (drop_bit 16 w), ucast (drop_bit 24 w)]"

text \<open>Modelled from the spec: reading a counter back from its four bytes.\<close>

definition dec32 :: "byte list \<Rightarrow> u32" where
  "dec32 bs = (case bs of
       [b0, b1, b2, b3] \<Rightarrow>
         ucast b0 OR push_bit 8 (ucast b1) OR push_bit 16 (ucast b2) OR push_bit 24 (ucast b3)
     | _ \<Rightarrow> 0)"

text \<open>Modelled from the spec: the serialised list header, its two counters in order.\<close>

definition encode_list_header :: "PListHeader \<Rightarrow> byte list" where
  "encode_list_header lh = enc32 (blockCount lh) @ enc32 (recordCount lh)"

text \<open>Modelled from the spec: the size of a serialised list header.\<close>

definition list_header_size :: nat where
  "list_header_size = 8"

text \<open>Modelled from the spec: the list header read from its \<open>list_header_size\<close> bytes.\<close>

definition decode_list_header :: "byte list \<Rightarrow> PListHeader" where
  "decode_list_header bs =
     \<lparr>blockCount = dec32 (take 4 bs), recordCount = dec32 (take 4 (drop 4 bs))\<rparr>"

text \<open>
  Modelled from the spec: the serialised block header, its three counters in order and one
  byte for the first-block flag.
\<close>

definition encode_block_header :: "PListBlockHeader \<Rightarrow> byte list" where
  "encode_block_header h =
     enc32 (block_id h) @ enc32 (body_size h) @ enc32 (record_count h)
     @ [if first_block h then 1 else 0]"

text \<open>Modelled from the spec: the size of a serialised block header, the minimum size of a block.\<close>

definition block_header_size :: nat where
  "block_header_size = 13"

text \<open>Modelled from the spec: the block header read from its \<open>block_header_size\<close> bytes.\<close>

definition decode_block_header :: "byte list \<Rightarrow> PListBlockHeader" where
  "decode_block_header bs =
     \<lparr>block_id = dec32 (take 4 bs),
      body_size = dec32 (take 4 (drop 4 bs)),
      record_count = dec32 (take 4 (drop 8 bs)),
      first_block = (take 1 (drop 12 bs) \<noteq> [0])\<rparr>"

text \<open>
  Modelled from the spec: \<open>encode(listHeader?, blockHeader, body)\<close> of the block codec,
  which has no declaration in the sources: it concatenates the list header (only when one is
  given and the block is the first of its list), the block header and the body, and
  records the length of the body in the block header.
\<close>

definition encode :: "PListHeader option \<Rightarrow> PListBlockHeader \<Rightarrow> byte list \<Rightarrow> byte list" where
  "encode lh h body =
     (case lh of
        None \<Rightarrow> []
      | Some l \<Rightarrow> if first_block h then encode_list_header l else [])
     @ encode_block_header (h\<lparr>body_size := of_nat (length body)\<rparr>)
     @ body"

text \<open>
  Modelled from the spec: the body of \<open>TCIndex::RawBlockToBlock(block, block_size, isFirst)\<close>,
  the decoder of the block codec. The byte stream and its size are one byte list. With
  \<open>isFirst\<close> the stream starts with a list header. Decoding fails with \<open>CorruptBlock\<close>
  when the stream is shorter than the headers or when the body length that the block
  header declares is not the number of remaining bytes.
\<close>

definition RawBlockToBlock ::
  "byte list \<Rightarrow> bool \<Rightarrow> index_error + (PListHeader, PListBlockHeader) PListBlock" where
  "RawBlockToBlock block isFirst =
     (let lsz = (if isFirst then list_header_size else 0) in
      if length block < lsz + block_header_size then Inl CorruptBlock
      else
        let lh = (if isFirst then Some (decode_list_header (take list_header_size block))
                  else None);
            h = decode_block_header (take block_header_size (drop lsz block));
            body = drop (lsz + block_header_size) block
        in if unat (body_size h) \<noteq> length body then Inl CorruptBlock
           else Inr \<lparr>ListHeader = lh, Header = Some h, Body = Some body,
                     BodySize = of_nat (length body)\<rparr>)"

subsection \<open>The collection and the index\<close>

text \<open>
  Modelled from the spec: the keys of the collection, whose derivation is in the missing
  bodies: a list header is addressed by the list id alone, a block by list id and block id.
\<close>

datatype store_key = ListKey c_int | BlockKey c_int c_int

text \<open>
  Modelled from the spec: the state of a \<open>TCIndex\<close>: the records of the key-value
  collection behind the missing database handle, one value per key (the first pair with
  that key), and the block cache \<open>m_BlocksCache\<close> that the class declares. Reads and writes
  of the collection always succeed here.
\<close>

record TCIndex =
  records :: "(store_key \<times> byte list) list"
  m_BlocksCache :: BlockCache

text \<open>
  Modelled from the spec: the two quantities that the spec calls configured and leaves
  open: the capacity of a block body in bytes and the flush threshold of the cache
  accumulator.
\<close>

record IndexConfig =
  block_capacity :: nat
  flush_threshold :: nat

text \<open>Modelled from the spec: the constructor \<open>TCIndex(TCDataStore*)\<close> on an empty collection.\<close>

definition TCIndex_new :: TCIndex where
  "TCIndex_new = \<lparr>records = [], m_BlocksCache = BlockCache_new\<rparr>"

text \<open>
  Modelled from the spec: the body of \<open>TCIndex::GetPListHeader(list_id)\<close>: it reads and
  decodes the header key and returns a zero-valued header when the key is absent.
\<close>

definition GetPListHeader :: "TCIndex \<Rightarrow> c_int \<Rightarrow> index_error + PListHeader" where
  "GetPListHeader idx lid =
     (case map_of (records idx) (ListKey lid) of
        None \<Rightarrow> Inr \<lparr>blockCount = 0, recordCount = 0\<rparr>
      | Some bs \<Rightarrow>
          if length bs = list_header_size then Inr (decode_list_header bs)
          else Inl CorruptBlock)"

text \<open>
  Modelled from the spec: the lookup that \<open>readBlock\<close> and \<open>appendChunk\<close> share: the cache
  first, if it belongs to the list and holds the block, the collection otherwise.
\<close>

definition lookup_block :: "TCIndex \<Rightarrow> c_int \<Rightarrow> c_int \<Rightarrow> byte list option" where
  "lookup_block idx lid bid =
     (case (if list_id (m_BlocksCache idx) = lid
            then map_of (buffer (m_BlocksCache idx)) bid else None) of
        Some bs \<Rightarrow> Some bs
      | None \<Rightarrow> map_of (records idx) (BlockKey lid bid))"

text \<open>
  Modelled from the spec: the body of \<open>TCIndex::ReadBlock(list_id, block_id, buffer, headers)\<close>.
  The result is the content of \<open>buffer\<close>, whose length is the number of bytes read. An absent
  block is the empty result; without \<open>headers\<close> the header bytes are stripped.
\<close>

definition ReadBlock :: "TCIndex \<Rightarrow> c_int \<Rightarrow> c_int \<Rightarrow> bool \<Rightarrow> index_error + byte list" where
  "ReadBlock idx lid bid headers =
     (case lookup_block idx lid bid of
        None \<Rightarrow> Inr []
      | Some bs \<Rightarrow>
          if headers then Inr bs
          else (case RawBlockToBlock bs False of
                  Inl e \<Rightarrow> Inl e
                | Inr blk \<Rightarrow> Inr (case Body blk of None \<Rightarrow> [] | Some body \<Rightarrow> body)))"

text \<open>
  Modelled from the spec: the body of \<open>TCIndex::WriteBlock(list_id, block_id, buffer, data_size)\<close>:
  the first \<open>data_size\<close> bytes of the buffer become the block in the collection, created or
  overwritten, past the cache.
\<close>

definition WriteBlock :: "TCIndex \<Rightarrow> c_int \<Rightarrow> c_int \<Rightarrow> byte list \<Rightarrow> nat \<Rightarrow> TCIndex" where
  "WriteBlock idx lid bid bytes data_size =
     idx\<lparr>records := AList.update (BlockKey lid bid) (take data_size bytes) (records idx)\<rparr>"

text \<open>
  Modelled from the spec: the body of \<open>TCIndex::UpdateListHeader(list_id, lhdr)\<close>: the
  header is persisted unconditionally.
\<close>

definition UpdateListHeader :: "TCIndex \<Rightarrow> c_int \<Rightarrow> PListHeader \<Rightarrow> TCIndex" where
  "UpdateListHeader idx lid lhdr =
     idx\<lparr>records := AList.update (ListKey lid) (encode_list_header lhdr) (records idx)\<rparr>"

text \<open>
  Modelled from the spec: the body of \<open>TCIndex::ClearCache()\<close>: the cached entries are
  dropped, accumulator and list id are reset, nothing is persisted.
\<close>

definition ClearCache :: "TCIndex \<Rightarrow> TCIndex" where
  "ClearCache idx = idx\<lparr>m_BlocksCache := BlockCache_new\<rparr>"

text \<open>
  Modelled from the spec: the body of \<open>TCIndex::FlushBlockCache()\<close>: the current bytes of
  every cached block are written to the collection with \<open>WriteBlock\<close>, then the cache is
  cleared.
\<close>

definition FlushBlockCache :: "TCIndex \<Rightarrow> TCIndex" where
  "FlushBlockCache idx =
     (let c = m_BlocksCache idx in
      ClearCache
        (fold (\<lambda>bid i. case map_of (buffer c) bid of
                          None \<Rightarrow> i
                        | Some bs \<Rightarrow> WriteBlock i (list_id c) bid bs (length bs))
              (remdups (map fst (buffer c))) idx))"

text \<open>
  Modelled from the spec: the current last block of a list as \<open>appendChunk\<close> sees it: none
  when the list has no block or the block is absent, else its header and body.
\<close>

definition last_block ::
  "TCIndex \<Rightarrow> c_int \<Rightarrow> PListHeader \<Rightarrow> index_error + (PListBlockHeader \<times> byte list) option" where
  "last_block idx lid lhdr =
     (if blockCount lhdr = 0 then Inr None
      else case lookup_block idx lid (blockCount lhdr - 1) of
             None \<Rightarrow> Inr None
           | Some bs \<Rightarrow>
               (case RawBlockToBlock bs False of
                  Inl e \<Rightarrow> Inl e
                | Inr blk \<Rightarrow>
                    (case (Header blk, Body blk) of
                       (Some h, Some body) \<Rightarrow> Inr (Some (h, body))
                     | _ \<Rightarrow> Inl CorruptBlock)))"

text \<open>
  Modelled from the spec: the cache is tied to one list at a time: when \<open>appendChunk\<close>
  is called for another list, the cache is switched to that list and what it held is
  discarded.
\<close>

definition switch_cache :: "TCIndex \<Rightarrow> c_int \<Rightarrow> TCIndex" where
  "switch_cache idx lid =
     (if list_id (m_BlocksCache idx) = lid then idx
      else idx\<lparr>m_BlocksCache := BlockCache_new\<lparr>list_id := lid\<rparr>\<rparr>)"

text \<open>
  Modelled from the spec: the header of a block that \<open>appendChunk\<close> creates for a chunk:
  its id is the last block id plus one, that is the block count of the list.
\<close>

definition new_block_header :: "PListHeader \<Rightarrow> PListBlockHeader \<Rightarrow> byte list \<Rightarrow> PListBlockHeader" where
  "new_block_header lhdr hdr chunk =
     \<lparr>block_id = blockCount lhdr, body_size = of_nat (length chunk),
      record_count = record_count hdr, first_block = (blockCount lhdr = 0)\<rparr>"

text \<open>
  Modelled from the spec: where \<open>appendChunk\<close> puts a chunk, given the current last block
  (if any): a new block when one is forced, when there is no last block or when the last
  block has no room for the whole chunk; the end of the last block otherwise. The result
  tells whether the block is new and gives the header and the body of the block that holds
  the chunk.
\<close>

definition place_chunk ::
  "IndexConfig \<Rightarrow> PListHeader \<Rightarrow> PListBlockHeader \<Rightarrow> byte list \<Rightarrow> bool
   \<Rightarrow> (PListBlockHeader \<times> byte list) option \<Rightarrow> bool \<times> PListBlockHeader \<times> byte list" where
  "place_chunk cfg lhdr hdr chunk new_block lb =
     (case lb of
        None \<Rightarrow> (True, new_block_header lhdr hdr chunk, chunk)
      | Some (h, body) \<Rightarrow>
          if new_block \<or> block_capacity cfg < length body + length chunk
          then (True, new_block_header lhdr hdr chunk, chunk)
          else (False,
                h\<lparr>block_id := blockCount lhdr - 1,
                  body_size := of_nat (length (body @ chunk)),
                  record_count := record_count h + record_count hdr\<rparr>,
                body @ chunk))"

text \<open>
  Modelled from the spec: the bookkeeping of \<open>appendChunk\<close> once the chunk is placed:
  the block that holds the chunk goes to the cache under its block id, the accumulator
  grows by the chunk size, and the list header is persisted.
\<close>

definition cache_chunk_block ::
  "TCIndex \<Rightarrow> c_int \<Rightarrow> PListHeader \<Rightarrow> PListBlockHeader \<Rightarrow> byte list \<Rightarrow> nat \<Rightarrow> TCIndex" where
  "cache_chunk_block idx lid lhdr hdr body chunk_size =
     UpdateListHeader
       (idx\<lparr>m_BlocksCache :=
          (m_BlocksCache idx)
            \<lparr>buffer := AList.update (block_id hdr) (encode None hdr body)
                         (buffer (m_BlocksCache idx)),
             accum := accum (m_BlocksCache idx) + of_nat chunk_size\<rparr>\<rparr>)
       lid lhdr"

text \<open>
  Modelled from the spec: the body of
  \<open>TCIndex::AppendChunk(list_id, lhdr, hdr, chunk, chunk_size, new_block)\<close>. The chunk and
  its size are one byte list. \<open>lhdr\<close> and \<open>hdr\<close> are reference parameters: the result holds
  the index, the updated list header and the header of the block that received the chunk.
  On entry \<open>record_count hdr\<close> is the number of records in the chunk.
  \<^item> A chunk larger than a block is an \<open>InvariantViolation\<close>.
  \<^item> The chunk is placed by \<open>place_chunk\<close>; the block that holds it goes to the cache.
  \<^item> A new block increments the block count; the list header's record total grows by the
    records of the chunk, and the header is persisted.
  \<^item> The accumulator grows by the chunk size; when it exceeds the flush threshold the
    cache is flushed.
\<close>

definition AppendChunk ::
  "IndexConfig \<Rightarrow> TCIndex \<Rightarrow> c_int \<Rightarrow> PListHeader \<Rightarrow> PListBlockHeader \<Rightarrow> byte list \<Rightarrow> bool
   \<Rightarrow> index_error + (TCIndex \<times> PListHeader \<times> PListBlockHeader)" where
  "AppendChunk cfg idx lid lhdr hdr chunk new_block =
     (if length chunk > block_capacity cfg then Inl InvariantViolation
      else
        let idx0 = switch_cache idx lid
        in case last_block idx0 lid lhdr of
             Inl e \<Rightarrow> Inl e
           | Inr lb \<Rightarrow>
               let (fresh, hdr', body') = place_chunk cfg lhdr hdr chunk new_block lb;
                   lhdr' = lhdr\<lparr>blockCount := (if fresh then blockCount lhdr + 1
                                                 else blockCount lhdr),
                                recordCount := recordCount lhdr + record_count hdr\<rparr>;
                   idx1 = cache_chunk_block idx0 lid lhdr' hdr' body' (length chunk);
                   idx2 = (if unat (accum (m_BlocksCache idx1)) > flush_threshold cfg
                           then FlushBlockCache idx1 else idx1)
               in Inr (idx2, lhdr', hdr'))"

text \<open>
  Modelled from the spec: the inner loop of \<open>merge\<close>: the blocks of a list of the other
  index are read in order and the body of each is appended as a chunk to the same list of
  this index, with the \<open>AppendChunk\<close> logic and the list header threaded through.
\<close>

fun append_blocks ::
  "IndexConfig \<Rightarrow> TCIndex \<Rightarrow> c_int \<Rightarrow> nat list \<Rightarrow> TCIndex \<times> PListHeader
   \<Rightarrow> index_error + (TCIndex \<times> PListHeader)" where
  "append_blocks cfg other lid [] st = Inr st"
| "append_blocks cfg other lid (bid # bids) (this, lhdr) =
     (case ReadBlock other lid (of_nat bid) True of
        Inl e \<Rightarrow> Inl e
      | Inr raw \<Rightarrow>
          (case RawBlockToBlock raw False of
             Inl e \<Rightarrow> Inl e
           | Inr blk \<Rightarrow>
               (case (Header blk, Body blk) of
                  (Some h, Some body) \<Rightarrow>
                    (case AppendChunk cfg this lid lhdr h body False of
                       Inl e \<Rightarrow> Inl e
                     | Inr (this', lhdr', hdr') \<Rightarrow> append_blocks cfg other lid bids (this', lhdr'))
                | _ \<Rightarrow> Inl CorruptBlock)))"

text \<open>
  Modelled from the spec: \<open>merge\<close> for one list: the blocks of the other index are
  appended, the record total of the list header is recomputed as the sum of the prior
  totals of the two indexes, the header is persisted and the cache is flushed before the
  next list.
\<close>

definition merge_list :: "IndexConfig \<Rightarrow> TCIndex \<Rightarrow> c_int \<Rightarrow> TCIndex \<Rightarrow> index_error + TCIndex" where
  "merge_list cfg other lid this =
     (case GetPListHeader other lid of
        Inl e \<Rightarrow> Inl e
      | Inr oh \<Rightarrow>
          (case GetPListHeader this lid of
             Inl e \<Rightarrow> Inl e
           | Inr sh \<Rightarrow>
               (case append_blocks cfg other lid [0..<unat (blockCount oh)] (this, sh) of
                  Inl e \<Rightarrow> Inl e
                | Inr (this', sh') \<Rightarrow>
                    Inr (FlushBlockCache
                           (UpdateListHeader this' lid
                              (sh'\<lparr>recordCount := recordCount sh + recordCount oh\<rparr>))))))"

text \<open>Modelled from the spec: the lists present in an index, those with a header key.\<close>

definition list_ids :: "TCIndex \<Rightarrow> c_int list" where
  "list_ids idx =
     remdups (concat (map (\<lambda>(k, v). case k of ListKey lid \<Rightarrow> [lid] | BlockKey lid bid \<Rightarrow> [])
                          (records idx)))"

text \<open>Modelled from the spec: one list after the other, stopping at the first error.\<close>

fun merge_lists :: "IndexConfig \<Rightarrow> TCIndex \<Rightarrow> c_int list \<Rightarrow> TCIndex \<Rightarrow> index_error + TCIndex" where
  "merge_lists cfg other [] this = Inr this"
| "merge_lists cfg other (lid # lids) this =
     (case merge_list cfg other lid this of
        Inl e \<Rightarrow> Inl e
      | Inr this' \<Rightarrow> merge_lists cfg other lids this')"

text \<open>
  Modelled from the spec: the body of \<open>TCIndex::Merge(plidx)\<close>: the lists of the other
  index are folded into this one, one list at a time; the result is this index.
\<close>

definition Merge :: "IndexConfig \<Rightarrow> TCIndex \<Rightarrow> TCIndex \<Rightarrow> index_error + TCIndex" where
  "Merge cfg this other = merge_lists cfg other (list_ids other) this"

section \<open>Properties of the block structures\<close>

text \<open>
  C1, as the specification words it: a block is null exactly when its header and its body
  are unset, whatever the other fields hold. The code also looks at the list header: a
  block that carries only a list header has header and body unset and is not null.
\<close>

theorem IsNull_ignores_list_header_counterexample:
  "\<not> (IsNull \<lparr>ListHeader = Some (), Header = (None :: unit option), Body = None, BodySize = 0\<rparr>
      \<longleftrightarrow> Header \<lparr>ListHeader = Some (), Header = (None :: unit option), Body = None, BodySize = 0\<rparr> = None
        \<and> Body \<lparr>ListHeader = Some (), Header = (None :: unit option), Body = None, BodySize = 0\<rparr> = None)"
  by (simp add: IsNull_def)

text \<open>
  C1, amended: \<open>IsNull\<close> holds exactly when the list header, the block header and the
  body are all three unset; the recorded body size plays no part.
\<close>

theorem IsNull_iff_all_three_unset:
  "IsNull blk = (ListHeader blk = None \<and> Header blk = None \<and> Body blk = None)
   \<and> IsNull (blk\<lparr>BodySize := n\<rparr>) = IsNull blk"
  by (simp add: IsNull_def)

text \<open>
  C6: a freshly constructed block cache is empty: its list id is zero, its accumulator
  is zero and its block buffer has no entry.
\<close>

theorem BlockCache_new_empty:
  "list_id BlockCache_new = 0 \<and> accum BlockCache_new = 0
   \<and> buffer BlockCache_new = [] \<and> map_of (buffer BlockCache_new) = Map.empty"
  by (simp add: BlockCache_new_def)

section \<open>Properties of AudioBlock\<close>

subsection \<open>Buffers and the invariant\<close>

lemma buf_simps: "buf None = []" "buf (Some xs) = xs"
  by (simp_all add: buf_def)

lemma memcpy_length:
  "memcpy dst doff src soff n = Inr d \<Longrightarrow> length (buf d) = length (buf dst) \<and> (d = None \<longleftrightarrow> dst = None)"
  by (cases dst) (auto simp: memcpy_def buf_simps split: if_splits)

lemma memcpy_ok:
  "doff + n \<le> length (buf dst) \<Longrightarrow> soff + n \<le> length (buf src) \<Longrightarrow>
   \<exists>d. memcpy dst doff src soff n = Inr d \<and>
       buf d = take doff (buf dst) @ take n (drop soff (buf src)) @ drop (doff + n) (buf dst)"
  by (cases dst) (auto simp: memcpy_def buf_simps)

lemma Resize_ok:
  "ndebug \<or> \<not> AudioBlock_IsNull b \<Longrightarrow>
   Resize ndebug n b = Inr (b\<lparr>mSize := min n (mCapacity b),
       mDuration := duration_of (min n (mCapacity b)) (mChannels b) (mSampleRate b)\<rparr>)"
  by (auto simp: Resize_def Let_def min_def)

lemma Resize_fields:
  "Resize ndebug n b = Inr b' \<Longrightarrow>
   mSize b' = min n (mCapacity b) \<and> mCapacity b' = mCapacity b \<and> mData b' = mData b
   \<and> mID b' = mID b \<and> mChannels b' = mChannels b"
  by (auto simp: Resize_def Let_def min_def split: if_splits)

lemma Resize_inv:
  "Resize ndebug n b = Inr b' \<Longrightarrow> length (buf (mData b)) = unat (mCapacity b) \<Longrightarrow> AudioBlock_inv b'"
  by (auto simp: Resize_def Let_def AudioBlock_inv_def split: if_splits)


lemma inv_mData_update:
  "AudioBlock_inv b \<Longrightarrow> length (buf d) = length (buf (mData b)) \<Longrightarrow> AudioBlock_inv (b\<lparr>mData := d\<rparr>)"
  by (simp add: AudioBlock_inv_def)

lemma SetData_Inr:
  assumes "SetData ndebug data n b = Inr (b', k)"
  obtains b1 d where "(if n \<noteq> mSize b then Resize ndebug n b else Inr b) = Inr b1"
    and "memcpy (mData b1) 0 data 0 (unat (mSize b1)) = Inr d"
    and "b' = b1\<lparr>mData := d\<rparr>" and "k = mSize b1"
  using assms unfolding SetData_def
  by (simp split: if_splits sum.splits) 

lemma SetData_inv:
  assumes "SetData ndebug data n b = Inr (b', k)" and "AudioBlock_inv b"
  shows "AudioBlock_inv b'"
proof -
  from assms(1) obtain b1 d where
    r: "(if n \<noteq> mSize b then Resize ndebug n b else Inr b) = Inr b1"
    and m: "memcpy (mData b1) 0 data 0 (unat (mSize b1)) = Inr d"
    and b': "b' = b1\<lparr>mData := d\<rparr>"
    by (rule SetData_Inr)
  have "AudioBlock_inv b1"
  proof (cases "n \<noteq> mSize b")
    case True
    with r have "Resize ndebug n b = Inr b1" by simp
    moreover from assms(2) have "length (buf (mData b)) = unat (mCapacity b)" by (simp add: AudioBlock_inv_def)
    ultimately show ?thesis by (rule Resize_inv)
  next
    case False
    with r assms(2) show ?thesis by simp
  qed
  moreover from m have "length (buf d) = length (buf (mData b1))"
    by (simp add: memcpy_length)
  ultimately show ?thesis unfolding b' by (rule inv_mData_update)
qed

lemma DoAppend_Inr:
  assumes "DoAppend ndebug data n b = Inr b'" and "mCapacity b - mSize b > 0"
  obtains d where
    "memcpy (mData b) (unat (mSize b)) data 0 (unat (min n (mCapacity b - mSize b))) = Inr d"
    and "Resize ndebug (mSize b + min n (mCapacity b - mSize b)) (b\<lparr>mData := d\<rparr>) = Inr b'"
proof -
  have eq: "(if mCapacity b - mSize b \<ge> n then n else mCapacity b - mSize b) = min n (mCapacity b - mSize b)"
    by (simp add: min_def)
  from assms show ?thesis
    unfolding DoAppend_def Let_def eq
    by (auto split: if_splits sum.splits intro: that)
qed

lemma DoAppend_inv:
  assumes "DoAppend ndebug data n b = Inr b'" and "AudioBlock_inv b"
  shows "AudioBlock_inv b'"
proof (cases "mCapacity b - mSize b > 0")
  case True
  from assms(1) True obtain d where
    m: "memcpy (mData b) (unat (mSize b)) data 0 (unat (min n (mCapacity b - mSize b))) = Inr d"
    and r: "Resize ndebug (mSize b + min n (mCapacity b - mSize b)) (b\<lparr>mData := d\<rparr>) = Inr b'"
    by (rule DoAppend_Inr)
  from m have "length (buf d) = length (buf (mData b))" by (simp add: memcpy_length)
  with assms(2) have "length (buf (mData (b\<lparr>mData := d\<rparr>))) = unat (mCapacity (b\<lparr>mData := d\<rparr>))"
    by (simp add: AudioBlock_inv_def)
  with r show ?thesis by (rule Resize_inv)
next
  case False
  with assms show ?thesis by (simp add: DoAppend_def Let_def)
qed


lemma Append_inv:
  "Append ndebug data n b = Inr b' \<Longrightarrow> AudioBlock_inv b \<Longrightarrow> AudioBlock_inv b'"
  by (auto simp: Append_def split: if_splits intro: DoAppend_inv)

lemma Append_block_inv:
  "Append_block ndebug block b = Inr b' \<Longrightarrow> AudioBlock_inv b \<Longrightarrow> AudioBlock_inv b'"
  by (auto simp: Append_block_def split: if_splits intro: DoAppend_inv)

lemma GetSubBlock_inv:
  assumes "GetSubBlock ndebug start sz block this = Inr b'" and "AudioBlock_inv block"
  shows "AudioBlock_inv b'"
proof (cases "(AudioBlock_IsNull this \<or> AudioBlock_IsNull block) \<or> \<not> start < mSize this")
  case True
  with assms(1) have "Resize ndebug 0 block = Inr b'" by (simp add: GetSubBlock_def)
  moreover from assms(2) have "length (buf (mData block)) = unat (mCapacity block)" by (simp add: AudioBlock_inv_def)
  ultimately show ?thesis by (rule Resize_inv)
next
  case False
  with assms(1) obtain d where
    m: "memcpy (Data block) 0 (mData this) (unat start) (unat (min sz (mSize this - start))) = Inr d"
    and r: "Resize ndebug (min sz (mSize this - start)) (block\<lparr>mData := d\<rparr>) = Inr b'"
    by (auto simp: GetSubBlock_def Let_def split: sum.splits)
  from m have "length (buf d) = length (buf (mData block))" by (simp add: memcpy_length Data_def)
  with assms(2) have "length (buf (mData (block\<lparr>mData := d\<rparr>))) = unat (mCapacity (block\<lparr>mData := d\<rparr>))"
    by (simp add: AudioBlock_inv_def)
  with r show ?thesis by (rule Resize_inv)
qed

lemma Create_inv:
  "Create ndebug n sr nc init b = Inr b' \<Longrightarrow> AudioBlock_inv b \<Longrightarrow> AudioBlock_inv b'"
  by (auto simp: Create_def Let_def AudioBlock_inv_def buf_simps split: if_splits)

lemma ComputeNormalizationFactor_inv:
  "AudioBlock_inv (ComputeNormalizationFactor T b) = AudioBlock_inv b"
  by (simp add: ComputeNormalizationFactor_def AudioBlock_inv_def)

lemma AudioBlock_new_inv: "AudioBlock_inv (AudioBlock_new T)"
  by (simp add: AudioBlock_new_def ComputeNormalizationFactor_def AudioBlock_inv_def buf_simps)

lemma AudioBlock_copy_inv:
  "AudioBlock_copy s = Inr b \<Longrightarrow> AudioBlock_inv s \<Longrightarrow> AudioBlock_inv b"
  by (auto simp: AudioBlock_copy_def AudioBlock_inv_def buf_simps split: if_splits)

lemma Swap_inv: "AudioBlock_inv b1 \<Longrightarrow> AudioBlock_inv b2 \<Longrightarrow> AudioBlock_inv (fst (Swap b1 b2)) \<and> AudioBlock_inv (snd (Swap b1 b2))"
  by (simp add: Swap_def AudioBlock_inv_def)

lemma set_sample_at_inv: "set_sample_at ndebug i v b = Inr b' \<Longrightarrow> AudioBlock_inv b \<Longrightarrow> AudioBlock_inv b'"
  by (cases "mData b") (auto simp: set_sample_at_def AudioBlock_inv_def buf_simps split: if_splits)

lemma SetChannels_inv: "SetChannels ndebug nc b = Inr b' \<Longrightarrow> AudioBlock_inv b \<Longrightarrow> AudioBlock_inv b'"
  by (auto simp: SetChannels_def AudioBlock_inv_def split: if_splits)


lemma AudioBlock_create_inv:
  assumes "AudioBlock_create ndebug T n sr nc init = Inr b"
  shows "AudioBlock_inv b"
proof -
  let ?b0 = "\<lparr>mCapacity = 0, mDuration = 0, mSize = 0, mSampleRate = 0, mChannels = 0,
              mData = None, mID = 0, mTimestamp = 0, mNormFactor = 1\<rparr> :: 'a AudioBlock"
  from assms obtain b1 where c: "Create ndebug n sr nc init ?b0 = Inr b1"
    and b: "b = ComputeNormalizationFactor T b1"
    by (auto simp: AudioBlock_create_def split: sum.splits)
  have "AudioBlock_inv ?b0" by (simp add: AudioBlock_inv_def buf_simps)
  with c have "AudioBlock_inv b1" by (rule Create_inv)
  then show ?thesis by (simp add: b ComputeNormalizationFactor_inv)
qed

lemma assign_inv:
  assumes "assign t s = Inr b" and "AudioBlock_inv t" and "AudioBlock_inv s"
  shows "AudioBlock_inv b"
proof -
  from assms(1) obtain block where c: "AudioBlock_copy s = Inr block"
    and b: "b = fst (Swap t block)"
    by (auto simp: assign_def split: sum.splits)
  from c assms(3) have "AudioBlock_inv block" by (rule AudioBlock_copy_inv)
  with assms(2) show ?thesis unfolding b by (simp add: Swap_inv)
qed

lemma Resize_inv_full: "Resize ndebug n b = Inr b' \<Longrightarrow> AudioBlock_inv b \<Longrightarrow> AudioBlock_inv b'"
  by (erule Resize_inv) (simp add: AudioBlock_inv_def)

lemma reachable_inv: "reachable ndebug b \<Longrightarrow> AudioBlock_inv b"
proof (induction rule: reachable.induct)
  case (r_new T) show ?case by (rule AudioBlock_new_inv)
next
  case (r_create T n sr nc init b) then show ?case by (rule AudioBlock_create_inv)
next
  case (r_copy s b) then show ?case by (auto intro: AudioBlock_copy_inv)
next
  case (r_assign t s b) then show ?case by (auto intro: assign_inv)
next
  case (r_Create b n sr nc init b') then show ?case by (auto intro: Create_inv)
next
  case (r_SetID b i) then show ?case by (simp add: SetID_def AudioBlock_inv_def)
next
  case (r_SetTimestamp b ts) then show ?case by (simp add: SetTimestamp_def AudioBlock_inv_def)
next
  case (r_SetChannels b c b') then show ?case by (auto intro: SetChannels_inv)
next
  case (r_Resize b n b') then show ?case by (auto intro: Resize_inv_full)
next
  case (r_SetData b data n b' k) then show ?case by (auto intro: SetData_inv)
next
  case (r_Append b data n b') then show ?case by (auto intro: Append_inv)
next
  case (r_Append_block b block b') then show ?case by (auto intro: Append_block_inv)
next
  case (r_GetSubBlock this block start sz b') then show ?case by (auto intro: GetSubBlock_inv)
next
  case (r_set_sample b i v b') then show ?case by (auto intro: set_sample_at_inv)
next
  case (r_write_Data b i v b') then show ?case by (auto intro: set_sample_at_inv)
qed

subsection \<open>Resize, SetData and Append stay within the capacity\<close>

lemma inv_nonnull: "AudioBlock_inv b \<Longrightarrow> mCapacity b \<noteq> 0 \<Longrightarrow> \<not> AudioBlock_IsNull b"
  by (cases "mData b") (auto simp: AudioBlock_inv_def AudioBlock_IsNull_def buf_simps unat_eq_0)

lemma Resize_result:
  assumes "ndebug \<or> \<not> AudioBlock_IsNull b"
  shows "\<exists>b'. Resize ndebug n b = Inr b' \<and> Size b' = min n (Capacity b)
               \<and> Capacity b' = Capacity b \<and> Data b' = Data b"
  using Resize_ok [OF assms, of n] by (simp add: Size_def Capacity_def Data_def)

lemma SetData_result:
  assumes w: "AudioBlock_inv b" and nn: "ndebug \<or> \<not> AudioBlock_IsNull b" and len: "unat n \<le> length d"
  shows "\<exists>b'. SetData ndebug (Some d) n b = Inr (b', min n (Capacity b))
            \<and> Size b' = min n (Capacity b) \<and> Capacity b' = Capacity b
            \<and> buf (Data b') = take (unat (min n (Capacity b))) d
                               @ drop (unat (min n (Capacity b))) (buf (Data b))"
proof -
  let ?k = "min n (mCapacity b)"
  obtain b1 where r: "(if n \<noteq> mSize b then Resize ndebug n b else Inr b) = Inr b1"
    and s1: "mSize b1 = ?k" and c1: "mCapacity b1 = mCapacity b" and d1: "mData b1 = mData b"
  proof (cases "n \<noteq> mSize b")
    case True
    from Resize_ok [OF nn, of n] obtain b1 where r1: "Resize ndebug n b = Inr b1" by blast
    from Resize_fields [OF r1] True r1 that show ?thesis by simp
  next
    case False
    then have e: "mSize b = n" by simp
    from w have "mSize b \<le> mCapacity b" by (simp add: AudioBlock_inv_def)
    then have "mSize b = min n (mCapacity b)" unfolding e by (simp add: min_def)
    moreover have "(if n \<noteq> mSize b then Resize ndebug n b else Inr b) = Inr b"
      using False by simp
    ultimately show ?thesis by (intro that [of b]) simp_all
  qed
  have k1: "unat ?k \<le> unat (mCapacity b)" by (simp add: word_le_nat_alt [symmetric])
  have k2: "unat ?k \<le> unat n" by (simp add: word_le_nat_alt [symmetric])
  from w k1 have "0 + unat ?k \<le> length (buf (mData b1))" by (simp add: AudioBlock_inv_def d1)
  moreover from k2 len have "0 + unat ?k \<le> length (buf (Some d))" by (simp add: buf_simps)
  ultimately obtain dd where m: "memcpy (mData b1) 0 (Some d) 0 (unat ?k) = Inr dd"
    and dd: "buf dd = take 0 (buf (mData b1)) @ take (unat ?k) (drop 0 (buf (Some d)))
                      @ drop (0 + unat ?k) (buf (mData b1))"
    using memcpy_ok by blast
  have "SetData ndebug (Some d) n b = Inr (b1\<lparr>mData := dd\<rparr>, ?k)"
    using nn r m s1 by (simp add: SetData_def)
  then show ?thesis
    using dd s1 c1 d1 by (simp add: Size_def Capacity_def Data_def buf_simps)
qed

lemma unat_avail: "AudioBlock_inv b \<Longrightarrow> unat (mCapacity b - mSize b) = unat (mCapacity b) - unat (mSize b)"
  by (simp add: AudioBlock_inv_def unat_sub)

lemma Append_full_or_empty:
  assumes w: "AudioBlock_inv b" and t: "n = 0 \<or> mCapacity b - mSize b = 0"
  shows "Append ndebug (Some d) n b = Inr b
         \<and> unat (mSize b) = min (unat (mSize b) + unat n) (unat (mCapacity b))"
proof -
  have a: "Append ndebug (Some d) n b = Inr b"
    using t by (auto simp: Append_def DoAppend_def Let_def)
  from w have le: "unat (mSize b) \<le> unat (mCapacity b)" by (simp add: AudioBlock_inv_def word_le_nat_alt)
  have "unat (mSize b) = min (unat (mSize b) + unat n) (unat (mCapacity b))"
  proof (cases "n = 0")
    case True with le show ?thesis by simp
  next
    case False
    with t have "unat (mCapacity b - mSize b) = 0" by simp
    with w have "unat (mCapacity b) - unat (mSize b) = 0" by (simp add: unat_avail)
    with le show ?thesis by simp
  qed
  with a show ?thesis by simp
qed

lemma Append_copies_prefix:
  assumes w: "AudioBlock_inv b" and len: "unat n \<le> length d"
    and al: "ndebug \<or> (mChannels b \<noteq> 0 \<and> min n (mCapacity b - mSize b) mod mChannels b = 0)"
    and f: "n \<noteq> 0" "mCapacity b - mSize b \<noteq> 0"
  shows "\<exists>b'. Append ndebug (Some d) n b = Inr b'
            \<and> unat (mSize b') = min (unat (mSize b) + unat n) (unat (mCapacity b))
            \<and> mCapacity b' = mCapacity b
            \<and> buf (mData b') = take (unat (mSize b)) (buf (mData b))
                 @ take (unat (mSize b') - unat (mSize b)) d
                 @ drop (unat (mSize b')) (buf (mData b))"
proof -
  let ?c = "min n (mCapacity b - mSize b)"
  from w have le: "unat (mSize b) \<le> unat (mCapacity b)" by (simp add: AudioBlock_inv_def word_le_nat_alt)
  from w have lb: "length (buf (mData b)) = unat (mCapacity b)" by (simp add: AudioBlock_inv_def)
  have uc: "unat ?c = min (unat n) (unat (mCapacity b) - unat (mSize b))"
    using unat_avail [OF w] by (simp add: min_def word_le_nat_alt)
  have sum_le: "unat (mSize b) + unat ?c \<le> unat (mCapacity b)" using le uc by simp
  have "unat (mSize b) + unat ?c < 2 ^ LENGTH(64)"
    using sum_le unsigned_less [of "mCapacity b", where 'a = nat] by simp
  then have us: "unat (mSize b + ?c) = unat (mSize b) + unat ?c"
    by (rule unat_add_lem [THEN iffD1])
  have "unat (mSize b) + unat ?c \<le> length (buf (mData b))" using sum_le lb by simp
  moreover have "0 + unat ?c \<le> length (buf (Some d))" using uc len by (simp add: buf_simps)
  ultimately obtain dd where m: "memcpy (mData b) (unat (mSize b)) (Some d) 0 (unat ?c) = Inr dd"
    and dd: "buf dd = take (unat (mSize b)) (buf (mData b)) @ take (unat ?c) (drop 0 (buf (Some d)))
                      @ drop (unat (mSize b) + unat ?c) (buf (mData b))"
    using memcpy_ok by blast
  let ?b1 = "b\<lparr>mData := dd\<rparr>"
  from m have ld: "length (buf dd) = length (buf (mData b))" by (simp add: memcpy_length)
  with w have w1: "AudioBlock_inv ?b1" by (rule inv_mData_update)
  from f(2) have "mCapacity b \<noteq> 0"
    using le unat_avail [OF w] by (auto simp: unat_eq_0 [symmetric] simp del: unat_eq_0)
  then have "mCapacity ?b1 \<noteq> 0" by simp
  with w1 have nn: "ndebug \<or> \<not> AudioBlock_IsNull ?b1" by (simp add: inv_nonnull)
  from Resize_ok [OF nn, of "mSize b + ?c"] obtain b' where
    r: "Resize ndebug (mSize b + ?c) ?b1 = Inr b'" by blast
  from Resize_fields [OF r] have
    s': "mSize b' = min (mSize b + ?c) (mCapacity b)" and c': "mCapacity b' = mCapacity b"
    and d': "mData b' = dd" by simp_all
  have "mSize b + ?c \<le> mCapacity b" using sum_le us by (simp add: word_le_nat_alt)
  then have s'': "mSize b' = mSize b + ?c" using s' by (simp add: min_def)
  have avail_pos: "0 < mCapacity b - mSize b" using f(2) by (simp add: word_greater_zero_iff)
  have cp: "(if mCapacity b - mSize b \<ge> n then n else mCapacity b - mSize b) = ?c"
    by (simp add: min_def)
  have ch: "\<not> (\<not> ndebug \<and> mChannels b = 0)" "\<not> (\<not> ndebug \<and> ?c mod mChannels b \<noteq> 0)"
    using al by auto
  have "DoAppend ndebug (Some d) n b = Inr b'"
    unfolding DoAppend_def Let_def cp using avail_pos ch m r by simp
  then have a: "Append ndebug (Some d) n b = Inr b'" using f(1) by (simp add: Append_def)
  have sz: "unat (mSize b') = min (unat (mSize b) + unat n) (unat (mCapacity b))"
    unfolding s'' us uc using le by simp
  have "unat (mSize b') - unat (mSize b) = unat ?c" unfolding s'' us by simp
  moreover have "unat (mSize b') = unat (mSize b) + unat ?c" unfolding s'' us by simp
  ultimately have "buf (mData b') = take (unat (mSize b)) (buf (mData b))
                 @ take (unat (mSize b') - unat (mSize b)) d
                 @ drop (unat (mSize b')) (buf (mData b))"
    unfolding d' dd by (simp add: buf_simps)
  with a sz c' show ?thesis by blast
qed

lemma Append_result:
  assumes w: "AudioBlock_inv b" and len: "unat n \<le> length d"
    and al: "ndebug \<or> (mChannels b \<noteq> 0 \<and> min n (mCapacity b - mSize b) mod mChannels b = 0)"
  shows "\<exists>b'. Append ndebug (Some d) n b = Inr b'
            \<and> unat (mSize b') = min (unat (mSize b) + unat n) (unat (mCapacity b))
            \<and> mCapacity b' = mCapacity b
            \<and> buf (mData b') = take (unat (mSize b)) (buf (mData b))
                 @ take (unat (mSize b') - unat (mSize b)) d
                 @ drop (unat (mSize b')) (buf (mData b))"
proof (cases "n = 0 \<or> mCapacity b - mSize b = 0")
  case True
  from Append_full_or_empty [OF w True, of ndebug d] show ?thesis by simp
next
  case False
  then show ?thesis using Append_copies_prefix [OF w len al] by simp
qed

lemma replicate_4: "replicate 4 x = [x, x, x, x]"
  by (simp add: numeral_eq_Suc)

text \<open>
  C8: for every block a client can obtain, the size never exceeds the capacity, and no
  mutating operation reallocates the buffer. \<open>Resize(n)\<close> sets the size to
  \<open>min(n, Capacity())\<close> and leaves capacity and buffer alone. \<open>Append(data, n)\<close> sets the
  size to \<open>min(oldSize + n, Capacity())\<close> and copies only the prefix of the data that
  fits, behind the old contents. \<open>SetData(data, n)\<close> copies \<open>min(n, Capacity())\<close> samples
  to the front of the buffer and returns that number. Here \<open>data\<close> points to at least
  \<open>n\<close> samples, and each call either runs with assertions compiled out or meets the
  conditions the function asserts (a non-null block; for \<open>Append\<close>, a number of copied
  samples that is a multiple of a non-zero number of channels).
\<close>

theorem AudioBlock_size_within_capacity:
  assumes "reachable ndebug b"
  shows "Size b \<le> Capacity b
    \<and> (ndebug \<or> \<not> AudioBlock_IsNull b \<longrightarrow>
         (\<exists>b'. Resize ndebug n b = Inr b' \<and> Size b' = min n (Capacity b)
               \<and> Capacity b' = Capacity b \<and> Data b' = Data b))
    \<and> (unat n \<le> length d
         \<and> (ndebug \<or> (Channels b \<noteq> 0 \<and> min n (Capacity b - Size b) mod Channels b = 0)) \<longrightarrow>
         (\<exists>b'. Append ndebug (Some d) n b = Inr b'
               \<and> unat (Size b') = min (unat (Size b) + unat n) (unat (Capacity b))
               \<and> Capacity b' = Capacity b
               \<and> buf (Data b') = take (unat (Size b)) (buf (Data b))
                    @ take (unat (Size b') - unat (Size b)) d
                    @ drop (unat (Size b')) (buf (Data b))))
    \<and> (unat n \<le> length d \<and> (ndebug \<or> \<not> AudioBlock_IsNull b) \<longrightarrow>
         (\<exists>b'. SetData ndebug (Some d) n b = Inr (b', min n (Capacity b))
               \<and> Size b' = min n (Capacity b) \<and> Capacity b' = Capacity b
               \<and> buf (Data b') = take (unat (min n (Capacity b))) d
                    @ drop (unat (min n (Capacity b))) (buf (Data b))))"
proof -
  from assms have w: "AudioBlock_inv b" by (rule reachable_inv)
  then have 1: "mSize b \<le> mCapacity b" by (simp add: AudioBlock_inv_def)
  have 2: "\<exists>b'. Resize ndebug n b = Inr b' \<and> mSize b' = min n (mCapacity b)
               \<and> mCapacity b' = mCapacity b \<and> mData b' = mData b"
    if "ndebug \<or> \<not> AudioBlock_IsNull b"
    using Resize_result [OF that, of n] by (simp add: Size_def Capacity_def Data_def)
  have 3: "\<exists>b'. Append ndebug (Some d) n b = Inr b'
               \<and> unat (mSize b') = min (unat (mSize b) + unat n) (unat (mCapacity b))
               \<and> mCapacity b' = mCapacity b
               \<and> buf (mData b') = take (unat (mSize b)) (buf (mData b))
                    @ take (unat (mSize b') - unat (mSize b)) d
                    @ drop (unat (mSize b')) (buf (mData b))"
    if "unat n \<le> length d"
      and "ndebug \<or> (mChannels b \<noteq> 0 \<and> min n (mCapacity b - mSize b) mod mChannels b = 0)"
    using w that by (rule Append_result)
  have 4: "\<exists>b'. SetData ndebug (Some d) n b = Inr (b', min n (mCapacity b))
               \<and> mSize b' = min n (mCapacity b) \<and> mCapacity b' = mCapacity b
               \<and> buf (mData b') = take (unat (min n (mCapacity b))) d
                    @ drop (unat (min n (mCapacity b))) (buf (mData b))"
    if "unat n \<le> length d" and "ndebug \<or> \<not> AudioBlock_IsNull b"
    using SetData_result [OF w that(2) that(1)] by (simp add: Size_def Capacity_def Data_def)
  show ?thesis
    unfolding Size_def Capacity_def Data_def Channels_def
    apply (intro conjI impI)
       apply (rule 1)
      apply (erule 2)
     apply (erule conjE, erule (1) 3)
    apply (erule conjE, erule (1) 4)
    done
qed

text \<open>
  The same at a block of capacity 4 and size 2, built by the constructor with assertions
  compiled in, and six samples of data.
\<close>

theorem AudioBlock_size_within_capacity_witness:
  "\<exists>b :: 16 word AudioBlock.
      AudioBlock_create False S16bit 4 44100 2 2 = Inr b \<and> reachable False b
    \<and> Size b = 2 \<and> Capacity b = 4 \<and> Size b \<le> Capacity b
    \<and> (\<exists>b'. Resize False 6 b = Inr b' \<and> Size b' = 4 \<and> Capacity b' = 4 \<and> Data b' = Data b)
    \<and> (\<exists>b'. Append False (Some [1, 2, 3, 4, 5, 6]) 6 b = Inr b' \<and> unat (Size b') = 4
            \<and> Capacity b' = 4 \<and> buf (Data b') = [0, 0, 1, 2])
    \<and> (\<exists>b'. SetData False (Some [1, 2, 3, 4, 5, 6]) 6 b = Inr (b', 4) \<and> Size b' = 4
            \<and> Capacity b' = 4 \<and> buf (Data b') = [1, 2, 3, 4])"
proof -
  let ?b = "\<lparr>mCapacity = 4, mDuration = 2 / (2 * 44100), mSize = 2, mSampleRate = 44100,
          mChannels = 2, mData = Some [0, 0, 0, 0], mID = 0, mTimestamp = 0,
          mNormFactor = 32768\<rparr> :: 16 word AudioBlock"
  have c: "AudioBlock_create False S16bit 4 44100 2 2 = Inr ?b"
    by (simp add: AudioBlock_create_def Create_def ComputeNormalizationFactor_def Let_def
        duration_of_def replicate_4)
  then have r: "reachable False ?b" by (rule reachable.r_create)
  have "(\<exists>b'. Resize False 6 ?b = Inr b' \<and> Size b' = 4 \<and> Capacity b' = 4 \<and> Data b' = Data ?b)
    \<and> (\<exists>b'. Append False (Some [1, 2, 3, 4, 5, 6]) 6 ?b = Inr b' \<and> unat (Size b') = 4
            \<and> Capacity b' = 4 \<and> buf (Data b') = [0, 0, 1, 2])
    \<and> (\<exists>b'. SetData False (Some [1, 2, 3, 4, 5, 6]) 6 ?b = Inr (b', 4) \<and> Size b' = 4
            \<and> Capacity b' = 4 \<and> buf (Data b') = [1, 2, 3, 4])"
    using AudioBlock_size_within_capacity [OF r, of 6 "[1, 2, 3, 4, 5, 6]"]
    by (auto simp: Size_def Capacity_def Data_def Channels_def AudioBlock_IsNull_def buf_simps)
  with c r show ?thesis
    by (intro exI [of _ ?b]) (simp add: Size_def Capacity_def)
qed

subsection \<open>Copying leaves the identifier out\<close>

text \<open>
  C9: the identifier is not part of copying. For every source block whose buffer holds its
  capacity, the copy constructor gives a block with identifier 0 and the capacity, size,
  samples, timestamp and normalisation factor of the source; assignment gives the target
  the same members of the source and leaves the target's identifier as it was; and
  \<open>Swap\<close> exchanges every member of its two arguments except the identifier.
\<close>

theorem AudioBlock_ID_excluded_from_copy:
  assumes "length (buf (Data src)) = unat (Capacity src)"
  shows "(\<exists>c. AudioBlock_copy src = Inr c \<and> ID c = 0
            \<and> Capacity c = Capacity src \<and> Size c = Size src \<and> buf (Data c) = buf (Data src)
            \<and> Timestamp c = Timestamp src \<and> NormFactor c = NormFactor src)
       \<and> (\<exists>t. assign tgt src = Inr t \<and> ID t = ID tgt
            \<and> Capacity t = Capacity src \<and> Size t = Size src \<and> buf (Data t) = buf (Data src)
            \<and> Timestamp t = Timestamp src \<and> NormFactor t = NormFactor src)
       \<and> Swap b1 b2 = (b2\<lparr>mID := ID b1\<rparr>, b1\<lparr>mID := ID b2\<rparr>)"
proof -
  let ?c = "\<lparr>mCapacity = mCapacity src, mDuration = mDuration src, mSize = mSize src,
             mSampleRate = mSampleRate src, mChannels = mChannels src,
             mData = (if mCapacity src \<noteq> 0
                      then Some (take (unat (mCapacity src)) (buf (mData src))) else None),
             mID = 0, mTimestamp = mTimestamp src, mNormFactor = mNormFactor src\<rparr>"
  from assms have len: "length (buf (mData src)) = unat (mCapacity src)"
    by (simp add: Data_def Capacity_def)
  then have c: "AudioBlock_copy src = Inr ?c" by (simp add: AudioBlock_copy_def)
  have d: "buf (mData ?c) = buf (mData src)"
    using len by (cases "mCapacity src = 0") (simp_all add: buf_simps unat_eq_0)
  have 1: "\<exists>c. AudioBlock_copy src = Inr c \<and> ID c = 0
            \<and> Capacity c = Capacity src \<and> Size c = Size src \<and> buf (Data c) = buf (Data src)
            \<and> Timestamp c = Timestamp src \<and> NormFactor c = NormFactor src"
    using c d by (simp add: ID_def Capacity_def Size_def Data_def Timestamp_def NormFactor_def)
  have a: "assign tgt src = Inr (fst (Swap tgt ?c))" using c by (simp add: assign_def)
  have 2: "\<exists>t. assign tgt src = Inr t \<and> ID t = ID tgt
            \<and> Capacity t = Capacity src \<and> Size t = Size src \<and> buf (Data t) = buf (Data src)
            \<and> Timestamp t = Timestamp src \<and> NormFactor t = NormFactor src"
    unfolding a using d
    by (simp add: Swap_def ID_def Capacity_def Size_def Data_def Timestamp_def NormFactor_def)
  have 3: "Swap b1 b2 = (b2\<lparr>mID := ID b1\<rparr>, b1\<lparr>mID := ID b2\<rparr>)"
    by (simp add: Swap_def ID_def)
  from 1 2 3 show ?thesis by (intro conjI)
qed

text \<open>The same for a source with identifier 7 and a null target with identifier 3.\<close>

theorem AudioBlock_ID_excluded_from_copy_witness:
  "\<exists>src tgt :: 16 word AudioBlock.
      src = \<lparr>mCapacity = 2, mDuration = 0, mSize = 1, mSampleRate = 8000, mChannels = 1,
             mData = Some [5, 6], mID = 7, mTimestamp = 9, mNormFactor = 32768\<rparr>
    \<and> tgt = \<lparr>mCapacity = 0, mDuration = 0, mSize = 0, mSampleRate = 0, mChannels = 0,
             mData = None, mID = 3, mTimestamp = 0, mNormFactor = 32768\<rparr>
    \<and> length (buf (Data src)) = unat (Capacity src)
    \<and> (\<exists>c. AudioBlock_copy src = Inr c \<and> ID c = 0 \<and> Capacity c = 2 \<and> Size c = 1
            \<and> buf (Data c) = [5, 6] \<and> Timestamp c = 9 \<and> NormFactor c = 32768)
    \<and> (\<exists>t. assign tgt src = Inr t \<and> ID t = 3 \<and> Capacity t = 2 \<and> Size t = 1
            \<and> buf (Data t) = [5, 6] \<and> Timestamp t = 9 \<and> NormFactor t = 32768)
    \<and> Swap tgt src = (src\<lparr>mID := 3\<rparr>, tgt\<lparr>mID := 7\<rparr>)"
proof -
  let ?src = "\<lparr>mCapacity = 2, mDuration = 0, mSize = 1, mSampleRate = 8000, mChannels = 1,
             mData = Some [5, 6], mID = 7, mTimestamp = 9, mNormFactor = 32768\<rparr> :: 16 word AudioBlock"
  let ?tgt = "\<lparr>mCapacity = 0, mDuration = 0, mSize = 0, mSampleRate = 0, mChannels = 0,
             mData = None, mID = 3, mTimestamp = 0, mNormFactor = 32768\<rparr> :: 16 word AudioBlock"
  have h: "length (buf (Data ?src)) = unat (Capacity ?src)"
    by (simp add: Data_def Capacity_def buf_simps)
  from AudioBlock_ID_excluded_from_copy [OF h, of ?tgt ?tgt ?src] h
  show ?thesis
    by (simp add: Data_def Capacity_def Size_def ID_def Timestamp_def NormFactor_def buf_simps)
qed

subsection \<open>GetSubBlock\<close>

lemma replicate_2: "replicate 2 x = [x, x]"
  by (simp add: numeral_2_eq_2)

text \<open>
  What \<open>GetSubBlock\<close> does where it stays inside both buffers: on the guarded path the
  destination gets size 0 and keeps its buffer; on the copying path, when the destination's
  capacity admits the \<open>min(size, sourceSize - start)\<close> samples, they are copied to its front
  and become its size.
\<close>

lemma GetSubBlock_guard:
  assumes "(AudioBlock_IsNull this \<or> AudioBlock_IsNull block) \<or> \<not> start < mSize this"
    and "ndebug \<or> \<not> AudioBlock_IsNull block"
  shows "\<exists>b'. GetSubBlock ndebug start sz block this = Inr b' \<and> mSize b' = 0
              \<and> mCapacity b' = mCapacity block \<and> mData b' = mData block"
proof -
  from assms(1) have "GetSubBlock ndebug start sz block this = Resize ndebug 0 block"
    by (simp add: GetSubBlock_def)
  with Resize_ok [OF assms(2), of 0] show ?thesis by simp
qed

lemma GetSubBlock_copy:
  assumes it: "AudioBlock_inv this" and ib: "AudioBlock_inv block"
    and nn: "\<not> AudioBlock_IsNull this" "\<not> AudioBlock_IsNull block"
    and st: "start < mSize this"
    and fits: "min sz (mSize this - start) \<le> mCapacity block"
  shows "\<exists>b'. GetSubBlock ndebug start sz block this = Inr b'
              \<and> mSize b' = min sz (mSize this - start) \<and> mCapacity b' = mCapacity block
              \<and> buf (mData b') =
                  take (unat (min sz (mSize this - start))) (drop (unat start) (buf (mData this)))
                  @ drop (unat (min sz (mSize this - start))) (buf (mData block))"
proof -
  let ?k = "min sz (mSize this - start)"
  from st have "start \<le> mSize this" by simp
  then have us: "unat (mSize this - start) = unat (mSize this) - unat start"
    by (rule unat_sub)
  have "?k \<le> mSize this - start" by simp
  then have k1: "unat ?k \<le> unat (mSize this) - unat start"
    unfolding us [symmetric] by (simp only: word_le_nat_alt)
  from st have s1: "unat start < unat (mSize this)" by (simp add: word_less_nat_alt)
  from it have s2: "unat (mSize this) \<le> length (buf (mData this))"
    by (simp add: AudioBlock_inv_def word_le_nat_alt)
  from k1 s1 s2 have src: "unat start + unat ?k \<le> length (buf (mData this))" by simp
  from fits ib have dst: "0 + unat ?k \<le> length (buf (Data block))"
    by (simp add: AudioBlock_inv_def word_le_nat_alt Data_def)
  from memcpy_ok [OF dst src] obtain d where
    m: "memcpy (Data block) 0 (mData this) (unat start) (unat ?k) = Inr d"
    and d: "buf d = take 0 (buf (Data block)) @ take (unat ?k) (drop (unat start) (buf (mData this)))
                    @ drop (0 + unat ?k) (buf (Data block))"
    by blast
  from m nn(2) have "d \<noteq> None" by (simp add: memcpy_length Data_def AudioBlock_IsNull_def)
  then have "ndebug \<or> \<not> AudioBlock_IsNull (block\<lparr>mData := d\<rparr>)"
    by (simp add: AudioBlock_IsNull_def)
  from Resize_ok [OF this, of ?k] obtain b' where
    r: "Resize ndebug ?k (block\<lparr>mData := d\<rparr>) = Inr b'" by blast
  from Resize_fields [OF r] fits have
    f: "mSize b' = ?k" "mCapacity b' = mCapacity block" "mData b' = d"
    by (simp_all add: min_absorb1)
  have "GetSubBlock ndebug start sz block this = Inr b'"
    using nn st m r by (simp add: GetSubBlock_def Let_def)
  with f d show ?thesis by (simp add: Data_def)
qed

text \<open>
  C10 says that \<open>GetSubBlock\<close> is total: it resizes the destination to 0 when a block is
  null or the start is out of range, and otherwise copies \<open>min(size, sourceSize - start)\<close>
  samples and gives the destination that size. The code copies before it looks at the
  destination's capacity. With a source of four samples and a destination of capacity two,
  both made by the constructor, \<open>GetSubBlock(0, 4, dst)\<close> copies four samples into a buffer
  of two, with or without assertions. And with assertions compiled in, a null destination
  reaches the assertion of \<open>Resize\<close> that the block is not null.
\<close>

theorem GetSubBlock_overruns_small_destination:
  "AudioBlock_create False S16bit 4 44100 2 (- 1) =
     Inr \<lparr>mCapacity = 4, mDuration = 4 / (2 * 44100), mSize = 4, mSampleRate = 44100,
          mChannels = 2, mData = Some [0, 0, 0, 0 :: 16 word], mID = 0, mTimestamp = 0,
          mNormFactor = 32768\<rparr>
   \<and> AudioBlock_create False S16bit 2 44100 2 (- 1) =
     Inr \<lparr>mCapacity = 2, mDuration = 2 / (2 * 44100), mSize = 2, mSampleRate = 44100,
          mChannels = 2, mData = Some [0, 0 :: 16 word], mID = 0, mTimestamp = 0,
          mNormFactor = 32768\<rparr>
   \<and> (\<forall>ndebug. GetSubBlock ndebug 0 4
       \<lparr>mCapacity = 2, mDuration = 2 / (2 * 44100), mSize = 2, mSampleRate = 44100,
          mChannels = 2, mData = Some [0, 0 :: 16 word], mID = 0, mTimestamp = 0,
          mNormFactor = 32768\<rparr>
       \<lparr>mCapacity = 4, mDuration = 4 / (2 * 44100), mSize = 4, mSampleRate = 44100,
          mChannels = 2, mData = Some [0, 0, 0, 0 :: 16 word], mID = 0, mTimestamp = 0,
          mNormFactor = 32768\<rparr> = Inl OutOfBounds)
   \<and> GetSubBlock False 0 4 (AudioBlock_new S16bit)
       \<lparr>mCapacity = 4, mDuration = 4 / (2 * 44100), mSize = 4, mSampleRate = 44100,
          mChannels = 2, mData = Some [0, 0, 0, 0 :: 16 word], mID = 0, mTimestamp = 0,
          mNormFactor = 32768\<rparr> = Inl AssertionFailed"
  by (simp add: AudioBlock_create_def Create_def ComputeNormalizationFactor_def Let_def
      duration_of_def replicate_4 replicate_2 GetSubBlock_def AudioBlock_IsNull_def
      memcpy_def Data_def buf_simps AudioBlock_new_def Resize_def)

section \<open>Properties of the posting-list index\<close>

subsection \<open>The block codec\<close>

lemma dec32_enc32: "dec32 (enc32 w) = w"
  unfolding dec32_def enc32_def
  apply simp
  apply (rule bit_word_eqI)
  apply (auto simp: bit_simps)
  subgoal for n by (cases "24 \<le> n") auto
  done

lemma length_enc32: "length (enc32 w) = 4"
  by (simp add: enc32_def)

lemma length_encode_list_header: "length (encode_list_header lh) = list_header_size"
  by (simp add: encode_list_header_def list_header_size_def length_enc32)

lemma decode_encode_list_header: "decode_list_header (encode_list_header lh) = lh"
  by (simp add: decode_list_header_def encode_list_header_def length_enc32 dec32_enc32)

lemma length_encode_block_header: "length (encode_block_header h) = block_header_size"
  by (simp add: encode_block_header_def block_header_size_def length_enc32)

lemma decode_encode_block_header: "decode_block_header (encode_block_header h) = h"
  by (simp add: decode_block_header_def encode_block_header_def length_enc32 dec32_enc32)

lemma RawBlockToBlock_encode_plain:
  assumes "length body < 2 ^ 32"
  shows "RawBlockToBlock (encode None h body) False =
         Inr \<lparr>ListHeader = None, Header = Some (h\<lparr>body_size := of_nat (length body)\<rparr>),
              Body = Some body, BodySize = of_nat (length body)\<rparr>"
proof -
  have u: "unat (of_nat (length body) :: u32) = length body"
    using assms by (simp add: unat_of_nat)
  show ?thesis
    by (simp add: RawBlockToBlock_def encode_def length_encode_block_header
        decode_encode_block_header u)
qed

lemma RawBlockToBlock_encode_first:
  assumes "length body < 2 ^ 32" and "first_block h"
  shows "RawBlockToBlock (encode (Some lh) h body) True =
         Inr \<lparr>ListHeader = Some lh, Header = Some (h\<lparr>body_size := of_nat (length body)\<rparr>),
              Body = Some body, BodySize = of_nat (length body)\<rparr>"
proof -
  have u: "unat (of_nat (length body) :: u32) = length body"
    using assms by (simp add: unat_of_nat)
  show ?thesis
    using assms(2)
    by (simp add: RawBlockToBlock_def encode_def length_encode_block_header
        length_encode_list_header decode_encode_list_header decode_encode_block_header u)
qed

text \<open>
  C2: decoding the bytes that encoding produces gives back the header and the body,
  \<open>decode(encode(h, b)) = (h, b)\<close>, for every valid pair: one whose header records the
  length of the body. Both functions are pure functions of their arguments. The same holds
  for a first block encoded together with a list header, which comes back as well.
\<close>

theorem block_codec_round_trip:
  assumes "unat (body_size h) = length body"
  shows "RawBlockToBlock (encode None h body) False =
           Inr \<lparr>ListHeader = None, Header = Some h, Body = Some body,
                BodySize = of_nat (length body)\<rparr>
       \<and> RawBlockToBlock (encode (Some lh) (h\<lparr>first_block := True\<rparr>) body) True =
           Inr \<lparr>ListHeader = Some lh, Header = Some (h\<lparr>first_block := True\<rparr>), Body = Some body,
                BodySize = of_nat (length body)\<rparr>"
proof -
  have "length body < 2 ^ LENGTH(32)"
    unfolding assms [symmetric] by (rule unsigned_less)
  then have len: "length body < 2 ^ 32" by simp
  have "of_nat (length body) = body_size h"
    unfolding assms [symmetric] by simp
  then have h: "h\<lparr>body_size := of_nat (length body)\<rparr> = h"
    and h1: "h\<lparr>first_block := True, body_size := of_nat (length body)\<rparr> = h\<lparr>first_block := True\<rparr>"
    by simp_all
  from RawBlockToBlock_encode_plain [OF len, of h]
    RawBlockToBlock_encode_first [OF len, of "h\<lparr>first_block := True\<rparr>" lh] h h1
  show ?thesis by simp
qed

text \<open>The round trip of a block with id 2 and a body of three bytes, with the bytes between.\<close>

theorem block_codec_round_trip_witness:
  "unat (body_size \<lparr>block_id = 2, body_size = 3, record_count = 1, first_block = False\<rparr>)
     = length [10, 20, 30 :: byte]
   \<and> encode None \<lparr>block_id = 2, body_size = 3, record_count = 1, first_block = False\<rparr>
        [10, 20, 30] = [2, 0, 0, 0, 3, 0, 0, 0, 1, 0, 0, 0, 0, 10, 20, 30]
   \<and> RawBlockToBlock [2, 0, 0, 0, 3, 0, 0, 0, 1, 0, 0, 0, 0, 10, 20, 30] False =
        Inr \<lparr>ListHeader = None,
             Header = Some \<lparr>block_id = 2, body_size = 3, record_count = 1, first_block = False\<rparr>,
             Body = Some [10, 20, 30], BodySize = 3\<rparr>"
proof -
  have e: "encode None \<lparr>block_id = 2, body_size = 3, record_count = 1, first_block = False\<rparr>
        [10, 20, 30] = [2, 0, 0, 0, 3, 0, 0, 0, 1, 0, 0, 0, 0, 10, 20, 30]"
    by (simp add: encode_def encode_block_header_def enc32_def)
  have a: "unat (body_size \<lparr>block_id = 2, body_size = 3, record_count = 1, first_block = False\<rparr>)
     = length [10, 20, 30 :: byte]" by simp
  from block_codec_round_trip [OF a] e a show ?thesis by simp
qed

subsection \<open>List headers\<close>

text \<open>
  C5: for every list id whose header key is absent from the collection, \<open>GetPListHeader\<close>
  returns the zero-valued list header, not an error: a list that does not exist yet is a
  valid, empty list.
\<close>

theorem GetPListHeader_absent_is_zero:
  assumes "map_of (records idx) (ListKey lid) = None"
  shows "GetPListHeader idx lid = Inr \<lparr>blockCount = 0, recordCount = 0\<rparr>"
  using assms by (simp add: GetPListHeader_def)

text \<open>List 7 in a new index.\<close>

theorem GetPListHeader_absent_is_zero_witness:
  "map_of (records TCIndex_new) (ListKey 7) = None
   \<and> GetPListHeader TCIndex_new 7 = Inr \<lparr>blockCount = 0, recordCount = 0\<rparr>"
proof -
  have a: "map_of (records TCIndex_new) (ListKey 7) = None" by (simp add: TCIndex_new_def)
  from GetPListHeader_absent_is_zero [OF a] a show ?thesis by simp
qed

subsection \<open>Looking blocks up through the cache\<close>

lemma lookup_block_switch_cache:
  "lookup_block (switch_cache idx lid) lid bid = lookup_block idx lid bid"
  by (simp add: lookup_block_def switch_cache_def BlockCache_new_def)

lemma list_id_switch_cache: "list_id (m_BlocksCache (switch_cache idx lid)) = lid"
  by (simp add: switch_cache_def)

lemma records_switch_cache: "records (switch_cache idx lid) = records idx"
  by (simp add: switch_cache_def)

lemma last_block_switch_cache:
  "last_block (switch_cache idx lid) lid lhdr = last_block idx lid lhdr"
  by (simp add: last_block_def lookup_block_switch_cache)

lemma flush_fold_block:
  "map_of (records (fold (\<lambda>bid i. case map_of b bid of
                          None \<Rightarrow> i
                        | Some bs \<Rightarrow> WriteBlock i l bid bs (length bs)) ks idx)) (BlockKey lid bid)
   = (if l = lid \<and> bid \<in> set ks \<and> map_of b bid \<noteq> None then map_of b bid
      else map_of (records idx) (BlockKey lid bid))"
proof (induction ks arbitrary: idx)
  case Nil
  show ?case by simp
next
  case (Cons k ks)
  show ?case
    by (cases "map_of b k") (auto simp: Cons.IH WriteBlock_def update_conv')
qed

lemma flush_fold_list:
  "map_of (records (fold (\<lambda>bid i. case map_of b bid of
                          None \<Rightarrow> i
                        | Some bs \<Rightarrow> WriteBlock i l bid bs (length bs)) ks idx)) (ListKey lid)
   = map_of (records idx) (ListKey lid)"
proof (induction ks arbitrary: idx)
  case Nil
  show ?case by simp
next
  case (Cons k ks)
  show ?case
    by (cases "map_of b k") (auto simp: Cons.IH WriteBlock_def update_conv')
qed

lemma records_FlushBlockCache_block:
  "map_of (records (FlushBlockCache idx)) (BlockKey lid bid)
   = (if list_id (m_BlocksCache idx) = lid \<and> map_of (buffer (m_BlocksCache idx)) bid \<noteq> None
      then map_of (buffer (m_BlocksCache idx)) bid
      else map_of (records idx) (BlockKey lid bid))"
  by (auto simp: FlushBlockCache_def Let_def ClearCache_def flush_fold_block
      map_of_eq_None_iff [symmetric])

lemma records_FlushBlockCache_list:
  "map_of (records (FlushBlockCache idx)) (ListKey lid) = map_of (records idx) (ListKey lid)"
  by (simp add: FlushBlockCache_def Let_def ClearCache_def flush_fold_list)

lemma cache_FlushBlockCache: "m_BlocksCache (FlushBlockCache idx) = BlockCache_new"
  by (simp add: FlushBlockCache_def Let_def ClearCache_def)

lemma lookup_block_FlushBlockCache:
  assumes "list_id (m_BlocksCache idx) = lid"
  shows "lookup_block (FlushBlockCache idx) lid bid = lookup_block idx lid bid"
  using assms
  by (cases "map_of (buffer (m_BlocksCache idx)) bid")
     (simp_all add: lookup_block_def records_FlushBlockCache_block cache_FlushBlockCache
        BlockCache_new_def)

lemma lookup_block_UpdateListHeader:
  "lookup_block (UpdateListHeader idx l lhdr) lid bid = lookup_block idx lid bid"
  by (simp add: lookup_block_def UpdateListHeader_def update_conv' split: option.split)

subsection \<open>AppendChunk keeps a chunk in one block\<close>

lemma AppendChunk_Inr:
  assumes "AppendChunk cfg idx lid lhdr hdr chunk new_block = Inr (idx', lhdr', hdr')"
  obtains lb fresh body' where
    "length chunk \<le> block_capacity cfg"
    and "last_block idx lid lhdr = Inr lb"
    and "place_chunk cfg lhdr hdr chunk new_block lb = (fresh, hdr', body')"
    and "lhdr' = lhdr\<lparr>blockCount := (if fresh then blockCount lhdr + 1 else blockCount lhdr),
                      recordCount := recordCount lhdr + record_count hdr\<rparr>"
    and "idx' = cache_chunk_block (switch_cache idx lid) lid lhdr' hdr' body' (length chunk)
         \<or> idx' = FlushBlockCache (cache_chunk_block (switch_cache idx lid) lid lhdr' hdr' body' (length chunk))"
proof -
  from assms have le: "length chunk \<le> block_capacity cfg"
    by (simp add: AppendChunk_def split: if_splits)
  from assms le obtain lb where lb: "last_block idx lid lhdr = Inr lb"
    by (auto simp: AppendChunk_def Let_def last_block_switch_cache split: sum.splits)
  obtain fresh h b where pc: "place_chunk cfg lhdr hdr chunk new_block lb = (fresh, h, b)"
    by (cases "place_chunk cfg lhdr hdr chunk new_block lb") auto
  let ?L = "lhdr\<lparr>blockCount := (if fresh then blockCount lhdr + 1 else blockCount lhdr),
                      recordCount := recordCount lhdr + record_count hdr\<rparr>"
  from assms le lb pc have eqs:
    "(if unat (accum (m_BlocksCache (cache_chunk_block (switch_cache idx lid) lid ?L h b (length chunk))))
           > flush_threshold cfg
      then FlushBlockCache (cache_chunk_block (switch_cache idx lid) lid ?L h b (length chunk))
      else cache_chunk_block (switch_cache idx lid) lid ?L h b (length chunk)) = idx' \<and> ?L = lhdr' \<and> h = hdr'"
    by (auto simp: AppendChunk_def Let_def last_block_switch_cache split: if_splits)
  then have h: "h = hdr'" and l: "lhdr' = ?L" by simp_all
  from eqs have "idx' = cache_chunk_block (switch_cache idx lid) lid lhdr' hdr' b (length chunk)
         \<or> idx' = FlushBlockCache (cache_chunk_block (switch_cache idx lid) lid lhdr' hdr' b (length chunk))"
    unfolding l h by (auto split: if_splits)
  with le lb pc l show ?thesis unfolding h by (rule that)
qed

text \<open>
  \<open>AppendChunk\<close> returns whenever the chunk is no larger than a block and the current
  last block, if there is one, decodes.
\<close>

lemma AppendChunk_succeeds:
  assumes "length chunk \<le> block_capacity cfg" and "last_block idx lid lhdr = Inr lb"
  shows "\<exists>r. AppendChunk cfg idx lid lhdr hdr chunk new_block = Inr r"
  using assms
  by (simp add: AppendChunk_def Let_def last_block_switch_cache split: prod.split)

lemma lookup_block_cache_chunk_block:
  "lookup_block (cache_chunk_block (switch_cache idx lid) lid lhdr' hdr' body' n) lid bid
   = (if bid = block_id hdr' then Some (encode None hdr' body') else lookup_block idx lid bid)"
  by (cases "list_id (m_BlocksCache idx) = lid")
     (simp_all add: cache_chunk_block_def lookup_block_def switch_cache_def UpdateListHeader_def
        update_conv' BlockCache_new_def split: option.split)

lemma list_id_cache_chunk_block:
  "list_id (m_BlocksCache (cache_chunk_block (switch_cache idx lid) lid lhdr' hdr' body' n)) = lid"
  by (simp add: cache_chunk_block_def UpdateListHeader_def list_id_switch_cache)

lemma place_chunk_cases:
  assumes "place_chunk cfg lhdr hdr chunk new_block lb = (fresh, hdr', body')"
    and "length chunk \<le> block_capacity cfg"
  shows "(fresh \<and> body' = chunk \<and> block_id hdr' = blockCount lhdr
            \<and> (new_block \<or> lb = None
                \<or> (\<exists>h body. lb = Some (h, body) \<and> block_capacity cfg < length body + length chunk)))
       \<or> (\<not> fresh \<and> \<not> new_block \<and> block_id hdr' = blockCount lhdr - 1
            \<and> (\<exists>h body. lb = Some (h, body) \<and> body' = body @ chunk
                  \<and> length body + length chunk \<le> block_capacity cfg))"
  using assms
  by (auto simp: place_chunk_def new_block_header_def split: option.splits if_splits)


text \<open>
  C4: whenever \<open>AppendChunk\<close> returns, the chunk is wholly contained in exactly one block:
  the bytes of the block named by the returned header are that header, the previous body of
  the block and then the whole chunk; the body stays within the block capacity; and every
  other block of the list reads as before the call. If the chunk is forced into a new block
  or would overflow the current last block, the previous body is empty and the block is a
  new one with the next block id; if it fits, the previous body is the body of the last
  block; a list without a last block gets a new block.
\<close>

theorem AppendChunk_never_splits:
  assumes "AppendChunk cfg idx lid lhdr hdr chunk new_block = Inr (idx', lhdr', hdr')"
  shows "\<exists>prev.
           lookup_block idx' lid (block_id hdr') = Some (encode None hdr' (prev @ chunk))
         \<and> length (prev @ chunk) \<le> block_capacity cfg
         \<and> (\<forall>bid. bid \<noteq> block_id hdr' \<longrightarrow> lookup_block idx' lid bid = lookup_block idx lid bid)
         \<and> (\<forall>h body. last_block idx lid lhdr = Inr (Some (h, body)) \<longrightarrow>
               (if new_block \<or> block_capacity cfg < length body + length chunk
                then prev = [] \<and> block_id hdr' = blockCount lhdr
                     \<and> blockCount lhdr' = blockCount lhdr + 1
                else prev = body \<and> block_id hdr' = blockCount lhdr - 1
                     \<and> blockCount lhdr' = blockCount lhdr))
         \<and> (last_block idx lid lhdr = Inr None \<longrightarrow>
               prev = [] \<and> block_id hdr' = blockCount lhdr
               \<and> blockCount lhdr' = blockCount lhdr + 1)"
proof -
  from assms obtain lb fresh body' where
    le: "length chunk \<le> block_capacity cfg"
    and lb: "last_block idx lid lhdr = Inr lb"
    and pc: "place_chunk cfg lhdr hdr chunk new_block lb = (fresh, hdr', body')"
    and l: "lhdr' = lhdr\<lparr>blockCount := (if fresh then blockCount lhdr + 1 else blockCount lhdr),
                      recordCount := recordCount lhdr + record_count hdr\<rparr>"
    and i: "idx' = cache_chunk_block (switch_cache idx lid) lid lhdr' hdr' body' (length chunk)
         \<or> idx' = FlushBlockCache
                    (cache_chunk_block (switch_cache idx lid) lid lhdr' hdr' body' (length chunk))"
    by (rule AppendChunk_Inr)
  let ?i1 = "cache_chunk_block (switch_cache idx lid) lid lhdr' hdr' body' (length chunk)"
  have look: "lookup_block idx' lid bid
      = (if bid = block_id hdr' then Some (encode None hdr' body') else lookup_block idx lid bid)"
    for bid
  proof -
    have "lookup_block idx' lid bid = lookup_block ?i1 lid bid"
      using i lookup_block_FlushBlockCache [OF list_id_cache_chunk_block] by auto
    then show ?thesis by (simp add: lookup_block_cache_chunk_block)
  qed
  define prev where "prev = (if fresh then [] else take (length body' - length chunk) body')"
  from place_chunk_cases [OF pc le] have body': "body' = prev @ chunk"
    by (auto simp: prev_def)
  have 1: "lookup_block idx' lid (block_id hdr') = Some (encode None hdr' (prev @ chunk))"
    by (simp add: look body')
  have 2: "length (prev @ chunk) \<le> block_capacity cfg"
    using place_chunk_cases [OF pc le] le by (auto simp: prev_def)
  have 3: "\<forall>bid. bid \<noteq> block_id hdr' \<longrightarrow> lookup_block idx' lid bid = lookup_block idx lid bid"
    by (simp add: look)
  have 4: "\<forall>h body. last_block idx lid lhdr = Inr (Some (h, body)) \<longrightarrow>
               (if new_block \<or> block_capacity cfg < length body + length chunk
                then prev = [] \<and> block_id hdr' = blockCount lhdr
                     \<and> blockCount lhdr' = blockCount lhdr + 1
                else prev = body \<and> block_id hdr' = blockCount lhdr - 1
                     \<and> blockCount lhdr' = blockCount lhdr)"
    using place_chunk_cases [OF pc le] lb by (auto simp: prev_def l)
  have 5: "last_block idx lid lhdr = Inr None \<longrightarrow>
               prev = [] \<and> block_id hdr' = blockCount lhdr
               \<and> blockCount lhdr' = blockCount lhdr + 1"
    using place_chunk_cases [OF pc le] lb by (auto simp: prev_def l)
  from 1 2 3 4 5 show ?thesis by blast
qed

text \<open>
  List 7 with a cached block 0 of five bytes, blocks of eight bytes, a chunk of four bytes:
  the chunk goes whole to the new block 1 and block 0 is untouched.
\<close>

theorem AppendChunk_never_splits_witness:
  "\<exists>idx idx' hdr'.
     idx = \<lparr>records = [(ListKey 7, [1, 0, 0, 0, 10, 0, 0, 0])],
            m_BlocksCache = \<lparr>list_id = 7, accum = 5,
              buffer = [(0, [0, 0, 0, 0, 5, 0, 0, 0, 10, 0, 0, 0, 1, 1, 2, 3, 4, 5])]\<rparr>\<rparr>
   \<and> hdr' = \<lparr>block_id = 1, body_size = 4, record_count = 3, first_block = False\<rparr>
   \<and> AppendChunk \<lparr>block_capacity = 8, flush_threshold = 100\<rparr> idx 7
         \<lparr>blockCount = 1, recordCount = 10\<rparr>
         \<lparr>block_id = 0, body_size = 0, record_count = 3, first_block = False\<rparr>
         [6, 7, 8, 9] False
       = Inr (idx', \<lparr>blockCount = 2, recordCount = 13\<rparr>, hdr')
   \<and> last_block idx 7 \<lparr>blockCount = 1, recordCount = 10\<rparr>
       = Inr (Some (\<lparr>block_id = 0, body_size = 5, record_count = 10, first_block = True\<rparr>,
                    [1, 2, 3, 4, 5]))
   \<and> lookup_block idx' 7 1 = Some (encode None hdr' [6, 7, 8, 9])
   \<and> lookup_block idx' 7 0 = lookup_block idx 7 0"
proof -
  let ?idx = "\<lparr>records = [(ListKey 7, [1, 0, 0, 0, 10, 0, 0, 0])],
            m_BlocksCache = \<lparr>list_id = 7, accum = 5,
              buffer = [(0, [0, 0, 0, 0, 5, 0, 0, 0, 10, 0, 0, 0, 1, 1, 2, 3, 4, 5])]\<rparr>\<rparr>"
  let ?hdr' = "\<lparr>block_id = 1, body_size = 4, record_count = 3, first_block = False\<rparr>"
  let ?idx' = "\<lparr>records = [(ListKey 7, [2, 0, 0, 0, 13, 0, 0, 0])],
            m_BlocksCache = \<lparr>list_id = 7, accum = 9,
              buffer = [(0, [0, 0, 0, 0, 5, 0, 0, 0, 10, 0, 0, 0, 1, 1, 2, 3, 4, 5]),
                        (1, [1, 0, 0, 0, 4, 0, 0, 0, 3, 0, 0, 0, 0, 6, 7, 8, 9])]\<rparr>\<rparr>"
  have lb: "last_block ?idx 7 \<lparr>blockCount = 1, recordCount = 10\<rparr>
       = Inr (Some (\<lparr>block_id = 0, body_size = 5, record_count = 10, first_block = True\<rparr>,
                    [1, 2, 3, 4, 5]))"
    by code_simp
  have a: "AppendChunk \<lparr>block_capacity = 8, flush_threshold = 100\<rparr> ?idx 7
         \<lparr>blockCount = 1, recordCount = 10\<rparr>
         \<lparr>block_id = 0, body_size = 0, record_count = 3, first_block = False\<rparr>
         [6, 7, 8, 9] False
       = Inr (?idx', \<lparr>blockCount = 2, recordCount = 13\<rparr>, ?hdr')"
    by code_simp
  from AppendChunk_never_splits [OF a] obtain prev where
    1: "lookup_block ?idx' 7 (block_id ?hdr') = Some (encode None ?hdr' (prev @ [6, 7, 8, 9]))"
    and 3: "\<forall>bid. bid \<noteq> block_id ?hdr' \<longrightarrow> lookup_block ?idx' 7 bid = lookup_block ?idx 7 bid"
    and 4: "\<forall>h body. last_block ?idx 7 \<lparr>blockCount = 1, recordCount = 10\<rparr> = Inr (Some (h, body)) \<longrightarrow>
               (if False \<or> block_capacity \<lparr>block_capacity = 8, flush_threshold = 100\<rparr>
                      < length body + length [6, 7, 8, 9 :: byte]
                then prev = [] \<and> block_id ?hdr' = blockCount \<lparr>blockCount = 1, recordCount = 10\<rparr>
                     \<and> blockCount \<lparr>blockCount = 2, recordCount = 13\<rparr>
                         = blockCount \<lparr>blockCount = 1, recordCount = 10\<rparr> + 1
                else prev = body \<and> block_id ?hdr' = blockCount \<lparr>blockCount = 1, recordCount = 10\<rparr> - 1
                     \<and> blockCount \<lparr>blockCount = 2, recordCount = 13\<rparr>
                         = blockCount \<lparr>blockCount = 1, recordCount = 10\<rparr>)"
    by blast
  from 4 lb have p: "prev = []" by simp
  from 1 p have b1: "lookup_block ?idx' 7 1 = Some (encode None ?hdr' [6, 7, 8, 9])" by simp
  from 3 have b0: "lookup_block ?idx' 7 0 = lookup_block ?idx 7 0" by simp
  from a lb b1 b0 show ?thesis by blast
qed

subsection \<open>Merge adds the record totals\<close>

lemma GetPListHeader_cong:
  "map_of (records a) (ListKey lid) = map_of (records b) (ListKey lid)
   \<Longrightarrow> GetPListHeader a lid = GetPListHeader b lid"
  by (simp add: GetPListHeader_def)

lemma GetPListHeader_stored:
  "map_of (records a) (ListKey lid) = Some (encode_list_header h) \<Longrightarrow> GetPListHeader a lid = Inr h"
  by (simp add: GetPListHeader_def length_encode_list_header decode_encode_list_header)

lemma records_cache_chunk_block_list:
  "map_of (records (cache_chunk_block idx lid lhdr hdr body n)) (ListKey l)
   = (if l = lid then Some (encode_list_header lhdr) else map_of (records idx) (ListKey l))"
  by (simp add: cache_chunk_block_def UpdateListHeader_def update_conv')

lemma AppendChunk_other_lists:
  assumes "AppendChunk cfg idx lid lhdr hdr chunk new_block = Inr (idx', lhdr', hdr')"
    and "l \<noteq> lid"
  shows "map_of (records idx') (ListKey l) = map_of (records idx) (ListKey l)"
proof -
  from assms(1) obtain body' where
    "idx' = cache_chunk_block (switch_cache idx lid) lid lhdr' hdr' body' (length chunk)
     \<or> idx' = FlushBlockCache
                (cache_chunk_block (switch_cache idx lid) lid lhdr' hdr' body' (length chunk))"
    by (rule AppendChunk_Inr)
  then show ?thesis
    using assms(2)
    by (auto simp: records_FlushBlockCache_list records_cache_chunk_block_list records_switch_cache)
qed

lemma append_blocks_other_lists:
  assumes "append_blocks cfg other lid bids (this, lhdr) = Inr (this', lhdr')" and "l \<noteq> lid"
  shows "map_of (records this') (ListKey l) = map_of (records this) (ListKey l)"
  using assms
proof (induction bids arbitrary: this lhdr)
  case Nil
  then show ?case by simp
next
  case (Cons bid bids)
  from Cons.prems(1) obtain h body t1 l1 h1 where
    a: "AppendChunk cfg this lid lhdr h body False = Inr (t1, l1, h1)"
    and r: "append_blocks cfg other lid bids (t1, l1) = Inr (this', lhdr')"
    by (auto split: sum.splits option.splits prod.splits)
  from Cons.IH [OF r Cons.prems(2)] AppendChunk_other_lists [OF a Cons.prems(2)]
  show ?case by simp
qed

lemma merge_list_Inr:
  assumes "merge_list cfg other lid this = Inr this'"
  obtains oh sh t1 sh' where "GetPListHeader other lid = Inr oh"
    and "GetPListHeader this lid = Inr sh"
    and "append_blocks cfg other lid [0..<unat (blockCount oh)] (this, sh) = Inr (t1, sh')"
    and "this' = FlushBlockCache
                   (UpdateListHeader t1 lid (sh'\<lparr>recordCount := recordCount sh + recordCount oh\<rparr>))"
  using assms unfolding merge_list_def
  by (auto split: sum.splits prod.splits)

lemma merge_list_other_lists:
  assumes "merge_list cfg other lid this = Inr this'" and "l \<noteq> lid"
  shows "map_of (records this') (ListKey l) = map_of (records this) (ListKey l)"
proof -
  from assms(1) obtain oh sh t1 sh' where
    "GetPListHeader other lid = Inr oh" and "GetPListHeader this lid = Inr sh"
    and ab: "append_blocks cfg other lid [0..<unat (blockCount oh)] (this, sh) = Inr (t1, sh')"
    and t: "this' = FlushBlockCache
                   (UpdateListHeader t1 lid (sh'\<lparr>recordCount := recordCount sh + recordCount oh\<rparr>))"
    by (rule merge_list_Inr)
  from append_blocks_other_lists [OF ab assms(2)] assms(2) show ?thesis
    by (simp add: t records_FlushBlockCache_list UpdateListHeader_def update_conv')
qed

lemma merge_list_total:
  assumes "merge_list cfg other lid this = Inr this'"
    and "GetPListHeader other lid = Inr oh" and "GetPListHeader this lid = Inr sh"
  shows "\<exists>h. GetPListHeader this' lid = Inr h \<and> recordCount h = recordCount sh + recordCount oh"
proof -
  from assms(1) obtain oh' sh0 t1 sh' where
    o: "GetPListHeader other lid = Inr oh'" and s: "GetPListHeader this lid = Inr sh0"
    and "append_blocks cfg other lid [0..<unat (blockCount oh')] (this, sh0) = Inr (t1, sh')"
    and t: "this' = FlushBlockCache
                   (UpdateListHeader t1 lid (sh'\<lparr>recordCount := recordCount sh0 + recordCount oh'\<rparr>))"
    by (rule merge_list_Inr)
  from o s assms(2,3) have e: "oh' = oh" "sh0 = sh" by simp_all
  have "map_of (records this') (ListKey lid)
        = Some (encode_list_header (sh'\<lparr>recordCount := recordCount sh + recordCount oh\<rparr>))"
    by (simp add: t e records_FlushBlockCache_list UpdateListHeader_def update_conv')
  then have "GetPListHeader this' lid = Inr (sh'\<lparr>recordCount := recordCount sh + recordCount oh\<rparr>)"
    by (rule GetPListHeader_stored)
  then show ?thesis by simp
qed

lemma merge_lists_other_lists:
  assumes "merge_lists cfg other lids this = Inr this'" and "l \<notin> set lids"
  shows "map_of (records this') (ListKey l) = map_of (records this) (ListKey l)"
  using assms
proof (induction lids arbitrary: this)
  case Nil
  then show ?case by simp
next
  case (Cons lid lids)
  from Cons.prems(1) obtain t1 where m: "merge_list cfg other lid this = Inr t1"
    and r: "merge_lists cfg other lids t1 = Inr this'"
    by (auto split: sum.splits)
  from Cons.prems(2) have "l \<noteq> lid" "l \<notin> set lids" by simp_all
  with Cons.IH [OF r] merge_list_other_lists [OF m] show ?case by simp
qed

lemma merge_lists_total:
  assumes "merge_lists cfg other lids this = Inr this'" and "distinct lids" and "l \<in> set lids"
    and "GetPListHeader other l = Inr oh" and "GetPListHeader this l = Inr sh"
  shows "\<exists>h. GetPListHeader this' l = Inr h \<and> recordCount h = recordCount sh + recordCount oh"
  using assms
proof (induction lids arbitrary: this)
  case Nil
  then show ?case by simp
next
  case (Cons lid lids)
  from Cons.prems(1) obtain t1 where m: "merge_list cfg other lid this = Inr t1"
    and r: "merge_lists cfg other lids t1 = Inr this'"
    by (auto split: sum.splits)
  from Cons.prems(2) have d: "lid \<notin> set lids" "distinct lids" by simp_all
  show ?case
  proof (cases "l = lid")
    case True
    from merge_list_total [OF m] Cons.prems(4,5) True obtain h where
      h: "GetPListHeader t1 lid = Inr h" "recordCount h = recordCount sh + recordCount oh"
      by blast
    from merge_lists_other_lists [OF r d(1)]
    have "GetPListHeader this' lid = GetPListHeader t1 lid" by (rule GetPListHeader_cong)
    with h True show ?thesis by simp
  next
    case False
    with Cons.prems(3) have in_rest: "l \<in> set lids" by simp
    from merge_list_other_lists [OF m False]
    have "GetPListHeader t1 l = GetPListHeader this l" by (rule GetPListHeader_cong)
    with Cons.prems(5) have "GetPListHeader t1 l = Inr sh" by simp
    with Cons.IH [OF r d(2) in_rest Cons.prems(4)] show ?thesis by simp
  qed
qed

lemma set_list_ids: "set (list_ids idx) = {l. ListKey l \<in> fst ` set (records idx)}"
  by (force simp: list_ids_def split: store_key.splits)

lemma distinct_list_ids: "distinct (list_ids idx)"
  by (simp add: list_ids_def)

lemma Merge_totals_as_words:
  assumes "Merge cfg main delta = Inr main'"
    and "GetPListHeader main lid = Inr mh" and "GetPListHeader delta lid = Inr dh"
  shows "\<exists>h. GetPListHeader main' lid = Inr h
             \<and> recordCount h = recordCount mh + recordCount dh"
proof (cases "lid \<in> set (list_ids delta)")
  case True
  from assms(1) have "merge_lists cfg delta (list_ids delta) main = Inr main'"
    by (simp add: Merge_def)
  from merge_lists_total [OF this distinct_list_ids True assms(3) assms(2)]
  show ?thesis .
next
  case False
  then have "map_of (records delta) (ListKey lid) = None"
    by (simp add: set_list_ids map_of_eq_None_iff)
  with assms(3) have dh: "recordCount dh = 0" by (auto simp: GetPListHeader_def)
  from assms(1) have "merge_lists cfg delta (list_ids delta) main = Inr main'"
    by (simp add: Merge_def)
  from merge_lists_other_lists [OF this False]
  have "GetPListHeader main' lid = GetPListHeader main lid" by (rule GetPListHeader_cong)
  with assms(2) dh show ?thesis by simp
qed

text \<open>
  C3: after a merge of a delta index into a main index that returns, the record count in
  the main index's header of every list, present in either index or in none, is the sum of
  the record counts that the list had in main and in delta before the merge: as 32-bit
  counters, and as numbers when the sum fits in 32 bits. The two prior headers are those
  that \<open>GetPListHeader\<close> decodes.
\<close>

theorem Merge_record_totals:
  assumes "Merge cfg main delta = Inr main'"
    and "GetPListHeader main lid = Inr mh" and "GetPListHeader delta lid = Inr dh"
  shows "\<exists>h. GetPListHeader main' lid = Inr h
             \<and> recordCount h = recordCount mh + recordCount dh
             \<and> (unat (recordCount mh) + unat (recordCount dh) < 2 ^ 32 \<longrightarrow>
                  unat (recordCount h) = unat (recordCount mh) + unat (recordCount dh))"
proof -
  from Merge_totals_as_words [OF assms] obtain h where
    h: "GetPListHeader main' lid = Inr h" "recordCount h = recordCount mh + recordCount dh"
    by blast
  have "unat (recordCount mh) + unat (recordCount dh) < 2 ^ 32 \<longrightarrow>
          unat (recordCount h) = unat (recordCount mh) + unat (recordCount dh)"
    unfolding h(2) using unat_add_lem [of "recordCount mh" "recordCount dh"] by simp
  with h show ?thesis by blast
qed

text \<open>List 3 with two records in main and five in delta; blocks of eight bytes.\<close>

theorem Merge_record_totals_witness:
  "\<exists>main delta main'.
     main = \<lparr>records = [(ListKey 3, [1, 0, 0, 0, 2, 0, 0, 0]),
                        (BlockKey 3 0, [0, 0, 0, 0, 2, 0, 0, 0, 2, 0, 0, 0, 1, 9, 9])],
             m_BlocksCache = \<lparr>list_id = 0, accum = 0, buffer = []\<rparr>\<rparr>
   \<and> delta = \<lparr>records = [(ListKey 3, [1, 0, 0, 0, 5, 0, 0, 0]),
                        (BlockKey 3 0, [0, 0, 0, 0, 5, 0, 0, 0, 5, 0, 0, 0, 1, 1, 2, 3, 4, 5])],
             m_BlocksCache = \<lparr>list_id = 0, accum = 0, buffer = []\<rparr>\<rparr>
   \<and> Merge \<lparr>block_capacity = 8, flush_threshold = 100\<rparr> main delta = Inr main'
   \<and> GetPListHeader main 3 = Inr \<lparr>blockCount = 1, recordCount = 2\<rparr>
   \<and> GetPListHeader delta 3 = Inr \<lparr>blockCount = 1, recordCount = 5\<rparr>
   \<and> (\<exists>h. GetPListHeader main' 3 = Inr h \<and> recordCount h = 7
          \<and> unat (recordCount h) = 2 + 5)"
proof -
  let ?main = "\<lparr>records = [(ListKey 3, [1, 0, 0, 0, 2, 0, 0, 0]),
                        (BlockKey 3 0, [0, 0, 0, 0, 2, 0, 0, 0, 2, 0, 0, 0, 1, 9, 9])],
             m_BlocksCache = \<lparr>list_id = 0, accum = 0, buffer = []\<rparr>\<rparr>"
  let ?delta = "\<lparr>records = [(ListKey 3, [1, 0, 0, 0, 5, 0, 0, 0]),
                        (BlockKey 3 0, [0, 0, 0, 0, 5, 0, 0, 0, 5, 0, 0, 0, 1, 1, 2, 3, 4, 5])],
             m_BlocksCache = \<lparr>list_id = 0, accum = 0, buffer = []\<rparr>\<rparr>"
  let ?main' = "\<lparr>records = [(ListKey 3, [1, 0, 0, 0, 7, 0, 0, 0]),
                        (BlockKey 3 0, [0, 0, 0, 0, 7, 0, 0, 0, 7, 0, 0, 0, 1, 9, 9, 1, 2, 3, 4, 5])],
             m_BlocksCache = \<lparr>list_id = 0, accum = 0, buffer = []\<rparr>\<rparr>"
  have m: "Merge \<lparr>block_capacity = 8, flush_threshold = 100\<rparr> ?main ?delta = Inr ?main'"
    by code_simp
  have a: "GetPListHeader ?main 3 = Inr \<lparr>blockCount = 1, recordCount = 2\<rparr>"
    by code_simp
  have b: "GetPListHeader ?delta 3 = Inr \<lparr>blockCount = 1, recordCount = 5\<rparr>"
    by code_simp
  from Merge_record_totals [OF m a b]
  have "\<exists>h. GetPListHeader ?main' 3 = Inr h \<and> recordCount h = 7 \<and> unat (recordCount h) = 2 + 5"
    by simp
  with m a b show ?thesis by blast
qed

end
